theory Spec2Isabelle
  imports Main "HOL-Library.Sublist" "HOL-Library.List_Lexorder"
begin

section \<open>Paths\<close>

text \<open>
  The deploy manager handles absolute paths only.  A path is the list of its segments
  below the root of one volume (POSIX style, compared case-sensitively): the string
  \<^verbatim>\<open>/repo/apps/a\<close> is \<open>[''repo'', ''apps'', ''a'']\<close>.  The functions of Node's
  \<^verbatim>\<open>path\<close> module that the manager calls are written out on this representation.
\<close>

type_synonym path = "string list"

text \<open>Splitting a path string at its separators.\<close>

fun split_path :: "string \<Rightarrow> string list" where
  "split_path [] = [[]]"
| "split_path (c # cs) =
     (if c = CHR ''/'' then [] # split_path cs
      else (case split_path cs of
              [] \<Rightarrow> [[c]]
            | seg # segs \<Rightarrow> (c # seg) # segs))"

text \<open>
  \<^verbatim>\<open>path.normalize\<close> on an absolute path: empty segments and \<^verbatim>\<open>.\<close> disappear, \<^verbatim>\<open>..\<close>
  removes the segment before it (and stays at the root when there is none).
\<close>

definition normalize_step :: "path \<Rightarrow> string \<Rightarrow> path" where
  "normalize_step acc seg =
     (if seg = [] \<or> seg = ''.'' then acc
      else if seg = ''..'' then butlast acc
      else acc @ [seg])"

definition path_normalize :: "string list \<Rightarrow> path" where
  "path_normalize segs = foldl normalize_step [] segs"

text \<open>The segments that normalisation keeps.\<close>

definition plain_segment :: "string \<Rightarrow> bool" where
  "plain_segment seg = (seg \<noteq> [] \<and> seg \<noteq> ''.'' \<and> seg \<noteq> ''..'')"

text \<open>\<^verbatim>\<open>path.join(base, ...rest)\<close>: concatenation, then normalisation.\<close>

definition path_join :: "path \<Rightarrow> string list \<Rightarrow> path" where
  "path_join base rest = path_normalize (base @ rest)"

text \<open>\<^verbatim>\<open>path.dirname\<close> of an absolute path; the root is its own parent.\<close>

definition path_dirname :: "path \<Rightarrow> path" where
  "path_dirname p = butlast p"

text \<open>
  \<^verbatim>\<open>path.relative(from, to)\<close>: both paths are normalised, their common prefix is
  dropped, and the result climbs out of what is left of \<open>from\<close> before it descends into
  what is left of \<open>to\<close>.  The result is a relative path: a list of segments that is read
  from wherever the caller stands.
\<close>

fun strip_common :: "path \<Rightarrow> path \<Rightarrow> path \<times> path" where
  "strip_common (a # as) (b # bs) =
     (if a = b then strip_common as bs else (a # as, b # bs))"
| "strip_common as bs = (as, bs)"

definition path_relative :: "path \<Rightarrow> path \<Rightarrow> string list" where
  "path_relative from to =
     (case strip_common (path_normalize from) (path_normalize to) of
        (from_rest, to_rest) \<Rightarrow> replicate (length from_rest) ''..'' @ to_rest)"

text \<open>
  \<^verbatim>\<open>path.resolve(p)\<close>: a string that starts with a separator is absolute, any other is
  read from the current working directory.
\<close>

definition path_resolve :: "path \<Rightarrow> string \<Rightarrow> path" where
  "path_resolve cwd s =
     (if s \<noteq> [] \<and> hd s = CHR ''/'' then path_normalize (split_path s)
      else path_normalize (cwd @ split_path s))"

text \<open>
  Modelled from the spec: \<^verbatim>\<open>Path.isUnderOrEqual\<close> of node-core-library is not among the
  sources.  The spec's remapping rule fails when the path "is not under" the source root;
  the helper's name adds the case of equality.
\<close>

definition isUnderOrEqual :: "path \<Rightarrow> path \<Rightarrow> bool" where
  "isUnderOrEqual childPath parentFolderPath =
     prefix (path_normalize parentFolderPath) (path_normalize childPath)"

text \<open>
  A path handed to a link primitive is a string that is either absolute or relative; the
  segment representation keeps the difference as a tag.
\<close>

datatype link_target = AbsoluteTarget path | RelativeTarget "string list"

section \<open>The scenario file, package manifests and the project registry\<close>

record IDeployScenarioProjectJson =
  projectName :: string
  subdeploymentFolderName :: "string option"
  additionalProjectsToInclude :: "string list option"

record IDeploySubdeploymentsJson =
  enabled :: "bool option"
  subdeploymentProjects :: "string list option"

datatype symlink_creation = SymlinkDefault | SymlinkScript | SymlinkNone

record IDeployScenarioJson =
  includeDevDependencies :: "bool option"
  includeNpmIgnoreFiles :: "bool option"
  symlinkCreation :: "symlink_creation option"
  projectSettings :: "IDeployScenarioProjectJson list option"
  subdeployments :: "IDeploySubdeploymentsJson option"

text \<open>
  The four dependency tables of a \<^verbatim>\<open>package.json\<close>: each maps a package name to a
  version specifier, in the order of the file, and may be absent.
\<close>

record IPackageJson =
  dependencies :: "(string \<times> string) list option"
  devDependencies :: "(string \<times> string) list option"
  peerDependencies :: "(string \<times> string) list option"
  optionalDependencies :: "(string \<times> string) list option"

datatype link_kind = fileLink | folderLink

record ILinkInfo =
  kind :: link_kind
  linkPath :: path
  targetPath :: path

section \<open>Errors\<close>

text \<open>
  Every \<^verbatim>\<open>throw new Error(...)\<close> of the manager, with the values its message names, and
  the exceptions of the libraries that pass through it: a failed load, a collision of the
  copy, an exception of \<^verbatim>\<open>resolve.sync\<close>, and a hard link whose target path is not
  absolute.
\<close>

datatype error =
    ScenarioConfigNotFound path
  | JsonLoadFailed path
  | ProjectSettingsUnknownProject string
  | AdditionalProjectUnknown string
  | ErrorResolving string path
  | ResolveThrew string
  | ErrorFindingPackageJson path
  | SourcePathNotUnder path path
  | CopyDestinationExists path
  | LinkTargetDoesNotExist ILinkInfo
  | InvalidHardLinkTarget link_target path
  | TargetFolderDoesNotExist string
  | TargetFolderNotEmpty
  | SubdeploymentUnknownProject string
  | SubdeploymentFolderNotUnique string
  | NoProjectsSpecified
  | ProjectNotDefined string

record RushConfigurationProject =
  projectFolder :: path

record RushConfiguration =
  commonFolder :: path
  rushJsonFolder :: path
  projects :: "(string \<times> RushConfigurationProject) list"

definition getProjectByName ::
    "RushConfiguration \<Rightarrow> string \<Rightarrow> RushConfigurationProject option" where
  "getProjectByName cfg projectName' = map_of (projects cfg) projectName'"

text \<open>
  Modelled from the spec: \<^verbatim>\<open>packageNameParser.getUnscopedName\<close> is not among the sources;
  the spec calls its result "the project's unscoped name": what follows the scope of
  \<^verbatim>\<open>@scope/name\<close>, and the whole name when there is no scope.
\<close>

definition getUnscopedName :: "string \<Rightarrow> string" where
  "getUnscopedName packageName =
     (if packageName \<noteq> [] \<and> hd packageName = CHR ''@'' \<and> CHR ''/'' \<in> set packageName
      then tl (dropWhile (\<lambda>c. c \<noteq> CHR ''/'') packageName)
      else packageName)"

section \<open>The filesystem\<close>

text \<open>
  Modelled from the spec: the \<^verbatim>\<open>FileSystem\<close> and \<^verbatim>\<open>JsonFile\<close> classes of
  node-core-library and \<^verbatim>\<open>fs-extra\<close> are not among the sources.  The filesystem is the
  list of its entries, each an absolute path with what is stored there.  A file holds a
  parsed scenario, a parsed manifest, or content the manager never reads.  A link holds
  the primitive that made it and the target path it was given.  The primitives do what
  the spec says of them; a failure of a primitive that the spec does not name is not
  modelled.
\<close>

datatype file_content =
    ScenarioContent IDeployScenarioJson
  | ManifestContent IPackageJson
  | OtherContent

datatype link_primitive = Junction | HardLink | SymbolicLinkFolder | SymbolicLinkFile

datatype fs_node = File file_content | Folder | Link link_primitive link_target

type_synonym filesystem = "(path \<times> fs_node) list"

text \<open>
  Modelled from the spec: \<^verbatim>\<open>FileSystem.exists\<close>.  A path exists when it has an entry of
  its own or an entry below it: the folders above an entry need no entries of their own.
\<close>

definition fs_exists :: "filesystem \<Rightarrow> path \<Rightarrow> bool" where
  "fs_exists fs p = list_ex (\<lambda>(q, n). prefix p q) fs"

text \<open>
  Modelled from the spec: \<^verbatim>\<open>FileSystem.getLinkStatistics(p).isSymbolicLink()\<close>, which
  says whether the entry "is itself a symbolic link"; a hard link is a file.
\<close>

definition isSymbolicLink :: "filesystem \<Rightarrow> path \<Rightarrow> bool" where
  "isSymbolicLink fs p =
     (case map_of fs p of
        Some (Link prim t) \<Rightarrow> prim \<noteq> HardLink
      | _ \<Rightarrow> False)"

text \<open>
  Modelled from the spec: writing an entry, the step all the primitives below share.  The
  entry of the path is replaced, or a new one is added at the end.
\<close>

definition fs_write :: "path \<Rightarrow> fs_node \<Rightarrow> filesystem \<Rightarrow> filesystem" where
  "fs_write p n fs =
     (if p \<in> fst ` set fs then map (\<lambda>(q, m). if q = p then (q, n) else (q, m)) fs
      else fs @ [(p, n)])"

text \<open>
  Modelled from the spec: \<^verbatim>\<open>FileSystem.ensureFolder\<close>.  The folder is created when the
  path does not exist.
\<close>

definition ensureFolder :: "filesystem \<Rightarrow> path \<Rightarrow> filesystem" where
  "ensureFolder fs p = (if fs_exists fs p then fs else fs @ [(p, Folder)])"

text \<open>
  Modelled from the spec: \<^verbatim>\<open>FileSystem.readFolder\<close>.  The names of what is directly
  inside the folder; the list is empty when nothing lies below the folder.
\<close>

definition readFolder :: "filesystem \<Rightarrow> path \<Rightarrow> string list" where
  "readFolder fs p =
     remdups (map (\<lambda>(q, n). q ! length p) (filter (\<lambda>(q, n). strict_prefix p q) fs))"

text \<open>
  Modelled from the spec: \<^verbatim>\<open>FileSystem.ensureEmptyFolder\<close>.  The contents are
  "recursively deleted": everything below the folder goes, the folder itself stays (and
  is created when missing).
\<close>

definition ensureEmptyFolder :: "filesystem \<Rightarrow> path \<Rightarrow> filesystem" where
  "ensureEmptyFolder fs p = ensureFolder (filter (\<lambda>(q, n). \<not> strict_prefix p q) fs) p"

text \<open>
  Modelled from the spec: the primitives of \<^verbatim>\<open>FileSystem\<close> that create a link at
  \<open>newLinkPath\<close>, one for each cell of the spec's platform and kind matrix.  A junction
  and the two symbolic links keep the target path exactly as the caller gave it, relative
  or absolute.
\<close>

definition createSymbolicLinkJunction :: "filesystem \<Rightarrow> link_target \<Rightarrow> path \<Rightarrow> filesystem" where
  "createSymbolicLinkJunction fs linkTargetPath newLinkPath =
     fs_write newLinkPath (Link Junction linkTargetPath) fs"

definition createSymbolicLinkFolder :: "filesystem \<Rightarrow> link_target \<Rightarrow> path \<Rightarrow> filesystem" where
  "createSymbolicLinkFolder fs linkTargetPath newLinkPath =
     fs_write newLinkPath (Link SymbolicLinkFolder linkTargetPath) fs"

definition createSymbolicLinkFile :: "filesystem \<Rightarrow> link_target \<Rightarrow> path \<Rightarrow> filesystem" where
  "createSymbolicLinkFile fs linkTargetPath newLinkPath =
     fs_write newLinkPath (Link SymbolicLinkFile linkTargetPath) fs"

text \<open>
  Modelled from the spec: \<^verbatim>\<open>FileSystem.createHardLink\<close>.  A hard link is made to "the
  absolute/resolved target path"; "relative paths are not valid for hard links", so the
  primitive throws when it is given one and the filesystem stays as it is.
\<close>

definition createHardLink :: "filesystem \<Rightarrow> link_target \<Rightarrow> path \<Rightarrow> error + filesystem" where
  "createHardLink fs linkTargetPath newLinkPath =
     (case linkTargetPath of
        AbsoluteTarget target \<Rightarrow> Inr (fs_write newLinkPath (Link HardLink linkTargetPath) fs)
      | RelativeTarget segments \<Rightarrow> Inl (InvalidHardLinkTarget linkTargetPath newLinkPath))"

text \<open>
  Modelled from the spec:
  \<^verbatim>\<open>fsx.copySync(src, dest, {overwrite: false, errorOnExist: true, filter})\<close>.  The walk
  visits the entries at and below \<open>src\<close>, a folder before what it holds, and asks the
  filter about each entry it visits; what lies below a rejected entry is not visited.  An
  accepted folder is created at its place below \<open>dest\<close>; any other accepted entry is
  copied there, and the copy fails when that place is taken (the spec: the copy "fails
  fatally on collision").  The filter is the caller's: it reads the filesystem and
  changes the caller's state.
\<close>

fun copyWalk ::
    "(filesystem \<Rightarrow> path \<Rightarrow> 'st \<Rightarrow> bool \<times> 'st) \<Rightarrow> path \<Rightarrow> path \<Rightarrow> (path \<times> fs_node) list \<Rightarrow>
     path list \<Rightarrow> filesystem \<Rightarrow> 'st \<Rightarrow> (error + 'st) \<times> filesystem" where
  "copyWalk filter' src dest [] rejected fs st = (Inr st, fs)"
| "copyWalk filter' src dest ((q, node) # rest) rejected fs st =
     (if list_ex (\<lambda>r. prefix r q) rejected then copyWalk filter' src dest rest rejected fs st
      else
        (case filter' fs q st of
           (False, st') \<Rightarrow> copyWalk filter' src dest rest (q # rejected) fs st'
         | (True, st') \<Rightarrow>
             (case node of
                Folder \<Rightarrow>
                  copyWalk filter' src dest rest rejected
                    (ensureFolder fs (dest @ drop (length src) q)) st'
              | _ \<Rightarrow>
                  (if fs_exists fs (dest @ drop (length src) q)
                   then (Inl (CopyDestinationExists (dest @ drop (length src) q)), fs)
                   else copyWalk filter' src dest rest rejected
                          (fs_write (dest @ drop (length src) q) node fs) st'))))"

definition copySync ::
    "(filesystem \<Rightarrow> path \<Rightarrow> 'st \<Rightarrow> bool \<times> 'st) \<Rightarrow> path \<Rightarrow> path \<Rightarrow> filesystem \<Rightarrow> 'st \<Rightarrow>
     (error + 'st) \<times> filesystem" where
  "copySync filter' src dest fs st =
     copyWalk filter' src dest
       (sort_key (\<lambda>(q, n). length q) (filter (\<lambda>(q, n). prefix src q) fs)) [] fs st"

text \<open>
  Modelled from the spec: \<^verbatim>\<open>JsonFile.load\<close>, once for each of the two kinds of file the
  manager loads.  Loading fails when the path holds no file of that kind.
\<close>

definition JsonFile_load_scenario :: "filesystem \<Rightarrow> path \<Rightarrow> error + IDeployScenarioJson" where
  "JsonFile_load_scenario fs p =
     (case map_of fs p of
        Some (File (ScenarioContent j)) \<Rightarrow> Inr j
      | _ \<Rightarrow> Inl (JsonLoadFailed p))"

definition JsonFile_load_manifest :: "filesystem \<Rightarrow> path \<Rightarrow> error + IPackageJson" where
  "JsonFile_load_manifest fs p =
     (case map_of fs p of
        Some (File (ManifestContent j)) \<Rightarrow> Inr j
      | _ \<Rightarrow> Inl (JsonLoadFailed p))"

text \<open>
  Modelled from the spec: \<^verbatim>\<open>PackageJsonLookup.tryGetPackageJsonFilePathFor\<close> is not among
  the sources.  It gives the manifest of the nearest folder, from the path itself upwards,
  that has a \<^verbatim>\<open>package.json\<close> (the spec: the set "holds the nearest manifest folder").
\<close>

definition tryGetPackageJsonFilePathFor :: "filesystem \<Rightarrow> path \<Rightarrow> path option" where
  "tryGetPackageJsonFilePathFor fs p =
     map_option (\<lambda>d. d @ [''package.json''])
       (find (\<lambda>d. fs_exists fs (d @ [''package.json''])) (rev (prefixes (path_normalize p))))"

section \<open>The environment of a run\<close>

text \<open>
  What \<^verbatim>\<open>resolve.sync\<close> does is the module resolution of the \<^verbatim>\<open>resolve\<close> package, which
  is not part of this repository: it is a parameter of the run.  A call either throws (the
  package throws \<^verbatim>\<open>MODULE_NOT_FOUND\<close> for a module it cannot find, and the
  \<^verbatim>\<open>realpathSync\<close> callback of the manager throws again what is not \<^verbatim>\<open>ENOENT\<close>), or
  returns after the callback has handed some paths to the symlink analyzer; what it
  returns is a path, or a value that JavaScript reads as false.
\<close>

datatype resolve_outcome =
    ResolveThrows string
  | ResolveReturns "path list" "path option"

text \<open>
  The other parameters: \<^verbatim>\<open>process.platform\<close>, the working directory, the project
  registry, \<^verbatim>\<open>FileSystem.getRealPath\<close>, and \<^verbatim>\<open>SymlinkAnalyzer.reportSymlinks\<close>, which
  turns the paths the analyzer was given into link descriptors.
\<close>

record world =
  platform :: string
  cwd :: path
  rushConfiguration :: RushConfiguration
  resolve_sync :: "filesystem \<Rightarrow> string \<Rightarrow> path \<Rightarrow> resolve_outcome"
  getRealPath :: "filesystem \<Rightarrow> path \<Rightarrow> path"
  reportSymlinks :: "filesystem \<Rightarrow> path list \<Rightarrow> ILinkInfo list"

section \<open>Loading the scenario\<close>

text \<open>The fields of the \<^verbatim>\<open>DeployManager\<close> object that a run assigns.\<close>

record DeployManager =
  targetRootFolder :: path
  sourceRootFolder :: path
  deployScenarioJson :: IDeployScenarioJson
  deployScenarioProjectJsonsByName :: "(string \<times> IDeployScenarioProjectJson) list"

section \<open>Remapping a source path into the deploy folder\<close>

record ISubdeploymentState =
  targetSubdeploymentFolder :: path
  symlinkAnalyzer :: "path list"
  foldersToCopy :: "path list"

text \<open>
  Modelled from the spec: \<^verbatim>\<open>SymlinkAnalyzer\<close> is not among the sources.  The analyzer
  of a subdeployment is the list of the paths that \<^verbatim>\<open>analyzePath\<close> was called with, in
  the order of the calls; what \<^verbatim>\<open>reportSymlinks\<close> makes of them is a parameter of the
  run.  \<open>foldersToCopy\<close> is a JavaScript set, in the order of insertion.
\<close>

definition remapPathForDeployFolder ::
    "DeployManager \<Rightarrow> path \<Rightarrow> ISubdeploymentState \<Rightarrow> error + path" where
  "remapPathForDeployFolder this absolutePathInSourceFolder subdemploymentState =
     (if \<not> isUnderOrEqual absolutePathInSourceFolder (sourceRootFolder this)
      then Inl (SourcePathNotUnder (sourceRootFolder this) absolutePathInSourceFolder)
      else
        let relativePath = path_relative (sourceRootFolder this) absolutePathInSourceFolder;
            absolutePathInTargetFolder =
              path_join (targetSubdeploymentFolder subdemploymentState) relativePath
        in Inr absolutePathInTargetFolder)"

text \<open>\<^verbatim>\<open>Map.set\<close>: a key that is present keeps its place and gets the new value.\<close>

definition Map_set :: "'k \<Rightarrow> 'v \<Rightarrow> ('k \<times> 'v) list \<Rightarrow> ('k \<times> 'v) list" where
  "Map_set k v m = (if k \<in> fst ` set m then map (\<lambda>(k', v'). if k' = k then (k', v) else (k', v')) m
                    else m @ [(k, v)])"

text \<open>The inner loop of \<^verbatim>\<open>_loadConfigFile\<close>, lines 78 to 83.\<close>

fun checkAdditionalProjects ::
    "RushConfiguration \<Rightarrow> IDeployScenarioProjectJson \<Rightarrow> string list \<Rightarrow> error + unit" where
  "checkAdditionalProjects cfg projectSetting [] = Inr ()"
| "checkAdditionalProjects cfg projectSetting (additionalProject # rest) =
     (if getProjectByName cfg (projectName projectSetting) = None
      then Inl (AdditionalProjectUnknown additionalProject)
      else checkAdditionalProjects cfg projectSetting rest)"

text \<open>The outer loop of \<^verbatim>\<open>_loadConfigFile\<close>, lines 72 to 85.\<close>

fun loadProjectSettings ::
    "RushConfiguration \<Rightarrow> IDeployScenarioProjectJson list \<Rightarrow>
     (string \<times> IDeployScenarioProjectJson) list \<Rightarrow>
     error + (string \<times> IDeployScenarioProjectJson) list" where
  "loadProjectSettings cfg [] byName = Inr byName"
| "loadProjectSettings cfg (projectSetting # rest) byName =
     (if getProjectByName cfg (projectName projectSetting) = None
      then Inl (ProjectSettingsUnknownProject (projectName projectSetting))
      else
        (case checkAdditionalProjects cfg projectSetting
                (case additionalProjectsToInclude projectSetting of None \<Rightarrow> [] | Some l \<Rightarrow> l) of
           Inl e \<Rightarrow> Inl e
         | Inr u \<Rightarrow>
             loadProjectSettings cfg rest
               (Map_set (projectName projectSetting) projectSetting byName)))"

definition deployScenarioPath :: "world \<Rightarrow> string \<Rightarrow> path" where
  "deployScenarioPath w scenarioName =
     path_join (commonFolder (rushConfiguration w))
       (split_path ''config/deploy-scenarios'' @ split_path (scenarioName @ ''.json''))"

definition loadConfigFile ::
    "world \<Rightarrow> filesystem \<Rightarrow> DeployManager \<Rightarrow> string \<Rightarrow> error + DeployManager" where
  "loadConfigFile w fs this scenarioName =
     (if \<not> fs_exists fs (deployScenarioPath w scenarioName)
      then Inl (ScenarioConfigNotFound (deployScenarioPath w scenarioName))
      else
        (case JsonFile_load_scenario fs (deployScenarioPath w scenarioName) of
           Inl e \<Rightarrow> Inl e
         | Inr json \<Rightarrow>
             (case loadProjectSettings (rushConfiguration w)
                     (case projectSettings json of None \<Rightarrow> [] | Some l \<Rightarrow> l)
                     (deployScenarioProjectJsonsByName this) of
                Inl e \<Rightarrow> Inl e
              | Inr byName \<Rightarrow>
                  Inr (this\<lparr>deployScenarioJson := json,
                            deployScenarioProjectJsonsByName := byName\<rparr>))))"

section \<open>Collecting the folders of a project and of its dependencies\<close>

text \<open>\<^verbatim>\<open>Set.add\<close>: a JavaScript set keeps the order of insertion and holds no value twice.\<close>

definition Set_add :: "'a list \<Rightarrow> 'a \<Rightarrow> 'a list" where
  "Set_add s x = (if x \<in> set s then s else s @ [x])"

text \<open>\<^verbatim>\<open>Object.keys(table || {})\<close>.\<close>

definition objectKeys :: "(string \<times> string) list option \<Rightarrow> string list" where
  "objectKeys table = (case table of None \<Rightarrow> [] | Some kvs \<Rightarrow> map fst kvs)"

text \<open>
  Lines 96 to 116 of \<^verbatim>\<open>_collectFoldersRecursive\<close>: the two name sets
  \<open>(allDependencyNames, optionalDependencyNames)\<close> of a manifest.
\<close>

definition dependencyNames :: "IDeployScenarioJson \<Rightarrow> IPackageJson \<Rightarrow> string list \<times> string list" where
  "dependencyNames json packageJson =
     (let all0 = foldl Set_add [] (objectKeys (dependencies packageJson));
          all1 = (if includeDevDependencies json = Some True
                  then foldl Set_add all0 (objectKeys (devDependencies packageJson))
                  else all0);
          all2 = foldl Set_add all1 (objectKeys (peerDependencies packageJson));
          opt2 = foldl Set_add [] (objectKeys (peerDependencies packageJson));
          all3 = foldl Set_add all2 (objectKeys (optionalDependencies packageJson));
          opt3 = foldl Set_add opt2 (objectKeys (optionalDependencies packageJson))
      in (all3, opt3))"

text \<open>
  \<^verbatim>\<open>_collectFoldersRecursive\<close> and its loop over the dependency names (lines 118 to 158).
  The first argument bounds the depth of the recursion; \<open>None\<close> says the bound was
  reached.  An exception ends the call with \<open>Inl\<close>.
\<close>

fun collectFoldersRecursive ::
    "nat \<Rightarrow> world \<Rightarrow> IDeployScenarioJson \<Rightarrow> filesystem \<Rightarrow> path \<Rightarrow> ISubdeploymentState \<Rightarrow>
     (error + ISubdeploymentState) option"
and collectDependencies ::
    "nat \<Rightarrow> world \<Rightarrow> IDeployScenarioJson \<Rightarrow> filesystem \<Rightarrow> path \<Rightarrow> string list \<Rightarrow>
     string list \<Rightarrow> ISubdeploymentState \<Rightarrow> (error + ISubdeploymentState) option"
where
  "collectFoldersRecursive 0 w json fs packageJsonPath st = None"
| "collectFoldersRecursive (Suc n) w json fs packageJsonPath st =
     (if path_dirname packageJsonPath \<in> set (foldersToCopy st) then Some (Inr st)
      else
        (case JsonFile_load_manifest fs packageJsonPath of
           Inl e \<Rightarrow> Some (Inl e)
         | Inr packageJson \<Rightarrow>
             collectDependencies n w json fs packageJsonPath
               (snd (dependencyNames json packageJson))
               (fst (dependencyNames json packageJson))
               (st\<lparr>foldersToCopy := Set_add (foldersToCopy st) (path_dirname packageJsonPath)\<rparr>)))"
| "collectDependencies n w json fs packageJsonPath optionalDependencyNames [] st = Some (Inr st)"
| "collectDependencies n w json fs packageJsonPath optionalDependencyNames
       (dependencyPackageName # rest) st =
     (case resolve_sync w fs dependencyPackageName (path_dirname packageJsonPath) of
        ResolveThrows msg \<Rightarrow> Some (Inl (ResolveThrew msg))
      | ResolveReturns analyzed resolvedDependency \<Rightarrow>
          (case resolvedDependency of
             None \<Rightarrow>
               (if dependencyPackageName \<in> set optionalDependencyNames
                then collectDependencies n w json fs packageJsonPath optionalDependencyNames rest
                       (st\<lparr>symlinkAnalyzer := symlinkAnalyzer st @ analyzed\<rparr>)
                else Some (Inl (ErrorResolving dependencyPackageName packageJsonPath)))
           | Some resolved \<Rightarrow>
               (case tryGetPackageJsonFilePathFor fs resolved of
                  None \<Rightarrow> Some (Inl (ErrorFindingPackageJson resolved))
                | Some dependencyPackageJsonPath \<Rightarrow>
                    (case collectFoldersRecursive n w json fs dependencyPackageJsonPath
                            (st\<lparr>symlinkAnalyzer := symlinkAnalyzer st @ analyzed\<rparr>) of
                       None \<Rightarrow> None
                     | Some (Inl e) \<Rightarrow> Some (Inl e)
                     | Some (Inr st') \<Rightarrow>
                         collectDependencies n w json fs packageJsonPath
                           optionalDependencyNames rest st'))))"


section \<open>Copying a folder\<close>

text \<open>
  The filter that \<^verbatim>\<open>_deployFolder\<close> gives to \<^verbatim>\<open>copySync\<close> (lines 184 to 196);
  \<^verbatim>\<open>analyzePath(src)\<close> adds the path to the analyzer.
\<close>

definition copyFilter ::
    "path \<Rightarrow> filesystem \<Rightarrow> path \<Rightarrow> ISubdeploymentState \<Rightarrow> bool \<times> ISubdeploymentState" where
  "copyFilter pathToIgnore fs src st =
     (if isUnderOrEqual src pathToIgnore then (False, st)
      else if isSymbolicLink fs src
           then (False, st\<lparr>symlinkAnalyzer := symlinkAnalyzer st @ [src]\<rparr>)
           else (True, st))"

definition deployFolder ::
    "DeployManager \<Rightarrow> path \<Rightarrow> ISubdeploymentState \<Rightarrow> filesystem \<Rightarrow>
     (error + ISubdeploymentState) \<times> filesystem" where
  "deployFolder this sourceFolderPath subdemploymentState fs =
     (case remapPathForDeployFolder this sourceFolderPath subdemploymentState of
        Inl e \<Rightarrow> (Inl e, fs)
      | Inr targetFolderPath \<Rightarrow>
          copySync (copyFilter (path_join sourceFolderPath [''node_modules'']))
            sourceFolderPath targetFolderPath fs subdemploymentState)"

section \<open>Creating a link in the deploy folder\<close>

text \<open>
  \<^verbatim>\<open>_deploySymlink\<close>.  The result pairs what the call returns (or throws) with the
  filesystem it leaves.
\<close>

definition deploySymlink ::
    "world \<Rightarrow> DeployManager \<Rightarrow> ILinkInfo \<Rightarrow> ISubdeploymentState \<Rightarrow> filesystem \<Rightarrow>
     (error + bool) \<times> filesystem" where
  "deploySymlink w this originalLinkInfo subdemploymentState fs =
     (case remapPathForDeployFolder this (linkPath originalLinkInfo) subdemploymentState of
        Inl e \<Rightarrow> (Inl e, fs)
      | Inr remappedLinkPath \<Rightarrow>
     (case remapPathForDeployFolder this (targetPath originalLinkInfo) subdemploymentState of
        Inl e \<Rightarrow> (Inl e, fs)
      | Inr remappedTargetPath \<Rightarrow>
          let linkInfo = \<lparr>kind = kind originalLinkInfo, linkPath = remappedLinkPath,
                          targetPath = remappedTargetPath\<rparr>
          in
          if \<not> fs_exists fs (targetPath linkInfo) then (Inr False, fs)
          else
            let newLinkFolder = path_dirname (linkPath linkInfo);
                fs1 = ensureFolder fs newLinkFolder;
                relativeTargetPath =
                  path_relative (getRealPath w fs1 newLinkFolder) (targetPath linkInfo)
            in
            if platform w = ''win32'' then
              (if kind linkInfo = folderLink
               then (Inr True,
                     createSymbolicLinkJunction fs1 (RelativeTarget relativeTargetPath)
                       (linkPath linkInfo))
               else
                 (case createHardLink fs1 (RelativeTarget relativeTargetPath)
                         (linkPath linkInfo) of
                    Inl e \<Rightarrow> (Inl e, fs1)
                  | Inr fs2 \<Rightarrow> (Inr True, fs2)))
            else
              (if kind linkInfo = folderLink
               then (Inr True,
                     createSymbolicLinkFolder fs1 (RelativeTarget relativeTargetPath)
                       (linkPath linkInfo))
               else (Inr True,
                     createSymbolicLinkFile fs1 (RelativeTarget relativeTargetPath)
                       (linkPath linkInfo)))))"

section \<open>One subdeployment\<close>

text \<open>Lines 257 to 268 of \<^verbatim>\<open>_deploySubdeployment\<close>: the set of included project names.\<close>

fun addIncludedProjects :: "DeployManager \<Rightarrow> string list \<Rightarrow> string list \<Rightarrow> string list" where
  "addIncludedProjects this [] includedProjectNamesSet = includedProjectNamesSet"
| "addIncludedProjects this (projectName' # rest) includedProjectNamesSet =
     addIncludedProjects this rest
       (case map_of (deployScenarioProjectJsonsByName this) projectName' of
          None \<Rightarrow> Set_add includedProjectNamesSet projectName'
        | Some projectSettings' \<Rightarrow>
            (case additionalProjectsToInclude projectSettings' of
               None \<Rightarrow> Set_add includedProjectNamesSet projectName'
             | Some additional \<Rightarrow>
                 foldl Set_add (Set_add includedProjectNamesSet projectName') additional))"

text \<open>Lines 276 to 285: the manifests of the included projects are resolved in turn.\<close>

fun collectProjects ::
    "nat \<Rightarrow> world \<Rightarrow> DeployManager \<Rightarrow> filesystem \<Rightarrow> string list \<Rightarrow> ISubdeploymentState \<Rightarrow>
     (error + ISubdeploymentState) option" where
  "collectProjects n w this fs [] st = Some (Inr st)"
| "collectProjects n w this fs (projectName' # rest) st =
     (case getProjectByName (rushConfiguration w) projectName' of
        None \<Rightarrow> Some (Inl (ProjectNotDefined projectName'))
      | Some project \<Rightarrow>
          (case collectFoldersRecursive n w (deployScenarioJson this) fs
                  (path_join (projectFolder project) [''package.json'']) st of
             None \<Rightarrow> None
           | Some (Inl e) \<Rightarrow> Some (Inl e)
           | Some (Inr st') \<Rightarrow> collectProjects n w this fs rest st'))"

text \<open>
  Modelled from the spec: \<^verbatim>\<open>Sort.sortSet\<close> of node-core-library is not among the
  sources; the spec asks that \<open>foldersToCopy\<close> is "sorted deterministically".  The folders
  are ordered as JavaScript compares strings: by the code units of the path string.
\<close>

definition path_string :: "path \<Rightarrow> string" where
  "path_string p = concat (map (\<lambda>seg. CHR ''/'' # seg) p)"

definition sortSet :: "path list \<Rightarrow> path list" where
  "sortSet s = sort_key (\<lambda>p. map (of_char :: char \<Rightarrow> nat) (path_string p)) s"

text \<open>Lines 290 to 292.\<close>

fun deployFolders ::
    "DeployManager \<Rightarrow> path list \<Rightarrow> ISubdeploymentState \<Rightarrow> filesystem \<Rightarrow>
     (error + ISubdeploymentState) \<times> filesystem" where
  "deployFolders this [] st fs = (Inr st, fs)"
| "deployFolders this (folderToCopy # rest) st fs =
     (case deployFolder this folderToCopy st fs of
        (Inl e, fs') \<Rightarrow> (Inl e, fs')
      | (Inr st', fs') \<Rightarrow> deployFolders this rest st' fs')"

text \<open>Lines 297 to 301.\<close>

fun deploySymlinks ::
    "world \<Rightarrow> DeployManager \<Rightarrow> ILinkInfo list \<Rightarrow> ISubdeploymentState \<Rightarrow> filesystem \<Rightarrow>
     (error + unit) \<times> filesystem" where
  "deploySymlinks w this [] st fs = (Inr (), fs)"
| "deploySymlinks w this (linkToCopy # rest) st fs =
     (case deploySymlink w this linkToCopy st fs of
        (Inl e, fs') \<Rightarrow> (Inl e, fs')
      | (Inr created, fs') \<Rightarrow>
          (if \<not> created then (Inl (LinkTargetDoesNotExist linkToCopy), fs')
           else deploySymlinks w this rest st fs'))"

text \<open>
  \<^verbatim>\<open>_deploySubdeployment\<close>.  The first argument bounds the depth of the resolver's
  recursion, and \<open>None\<close> says that the bound was reached.
\<close>

definition deploySubdeployment ::
    "nat \<Rightarrow> world \<Rightarrow> DeployManager \<Rightarrow> string list \<Rightarrow> string option \<Rightarrow> filesystem \<Rightarrow>
     ((error + unit) \<times> filesystem) option" where
  "deploySubdeployment n w this includedProjectNames subdeploymentFolderName' fs =
     (let includedProjectNamesSet = addIncludedProjects this includedProjectNames [];
          subdemploymentState =
            \<lparr>targetSubdeploymentFolder =
               path_join (targetRootFolder this)
                 (split_path
                    (case subdeploymentFolderName' of None \<Rightarrow> [] | Some name \<Rightarrow> name)),
             symlinkAnalyzer = [],
             foldersToCopy = []\<rparr>
      in
      (case collectProjects n w this fs includedProjectNamesSet subdemploymentState of
         None \<Rightarrow> None
       | Some (Inl e) \<Rightarrow> Some (Inl e, fs)
       | Some (Inr st1) \<Rightarrow>
           (case deployFolders this (sortSet (foldersToCopy st1))
                   (st1\<lparr>foldersToCopy := sortSet (foldersToCopy st1)\<rparr>) fs of
              (Inl e, fs') \<Rightarrow> Some (Inl e, fs')
            | (Inr st2, fs') \<Rightarrow>
                Some (deploySymlinks w this (reportSymlinks w fs' (symlinkAnalyzer st2)) st2 fs'))))"

section \<open>The whole run\<close>

text \<open>Lines 309 to 316 of \<^verbatim>\<open>deployScenario\<close>: the target root folder.\<close>

definition resolveTargetRootFolder :: "world \<Rightarrow> filesystem \<Rightarrow> string option \<Rightarrow> error + path" where
  "resolveTargetRootFolder w fs targetFolderParameter =
     (case targetFolderParameter of
        Some parameter \<Rightarrow>
          (if parameter \<noteq> [] then
             (if \<not> fs_exists fs (path_resolve (cwd w) parameter)
              then Inl (TargetFolderDoesNotExist parameter)
              else Inr (path_resolve (cwd w) parameter))
           else Inr (path_join (commonFolder (rushConfiguration w)) [''deploy'']))
      | None \<Rightarrow> Inr (path_join (commonFolder (rushConfiguration w)) [''deploy'']))"

text \<open>Lines 336 to 362: one subdeployment for each name of \<^verbatim>\<open>subdeploymentProjects\<close>.\<close>

fun deploySubdeploymentProjects ::
    "nat \<Rightarrow> world \<Rightarrow> DeployManager \<Rightarrow> string list \<Rightarrow> string list \<Rightarrow> filesystem \<Rightarrow>
     ((error + unit) \<times> filesystem) option" where
  "deploySubdeploymentProjects n w this [] usedSubdeploymentFolderNames fs = Some (Inr (), fs)"
| "deploySubdeploymentProjects n w this (subdeploymentProjectName # rest)
       usedSubdeploymentFolderNames fs =
     (case getProjectByName (rushConfiguration w) subdeploymentProjectName of
        None \<Rightarrow> Some (Inl (SubdeploymentUnknownProject subdeploymentProjectName), fs)
      | Some rushProject \<Rightarrow>
          let subdeploymentFolderName' =
                (case map_of (deployScenarioProjectJsonsByName this) subdeploymentProjectName of
                   None \<Rightarrow> getUnscopedName subdeploymentProjectName
                 | Some projectSettings' \<Rightarrow>
                     (case subdeploymentFolderName projectSettings' of
                        None \<Rightarrow> getUnscopedName subdeploymentProjectName
                      | Some name \<Rightarrow>
                          if name \<noteq> [] then name
                          else getUnscopedName subdeploymentProjectName))
          in
          if subdeploymentFolderName' \<in> set usedSubdeploymentFolderNames
          then Some (Inl (SubdeploymentFolderNotUnique subdeploymentFolderName'), fs)
          else
            (case deploySubdeployment n w this [subdeploymentProjectName]
                    (Some subdeploymentFolderName') fs of
               None \<Rightarrow> None
             | Some (Inl e, fs') \<Rightarrow> Some (Inl e, fs')
             | Some (Inr u, fs') \<Rightarrow>
                 deploySubdeploymentProjects n w this rest
                   (Set_add usedSubdeploymentFolderNames subdeploymentFolderName') fs'))"

text \<open>Lines 334 to 370: with subdeployments, or one deployment of all the projects.\<close>

definition subdeploymentsEnabled :: "IDeployScenarioJson \<Rightarrow> bool" where
  "subdeploymentsEnabled json =
     (case subdeployments json of
        None \<Rightarrow> False
      | Some sub \<Rightarrow> enabled sub = Some True)"

definition deployProjects ::
    "nat \<Rightarrow> world \<Rightarrow> DeployManager \<Rightarrow> filesystem \<Rightarrow> ((error + unit) \<times> filesystem) option" where
  "deployProjects n w this fs =
     (if subdeploymentsEnabled (deployScenarioJson this) then
        deploySubdeploymentProjects n w this
          (case subdeployments (deployScenarioJson this) of
             None \<Rightarrow> []
           | Some sub \<Rightarrow> (case subdeploymentProjects sub of None \<Rightarrow> [] | Some l \<Rightarrow> l))
          [] fs
      else
        (case projectSettings (deployScenarioJson this) of
           None \<Rightarrow> Some (Inl NoProjectsSpecified, fs)
         | Some settings \<Rightarrow>
             if settings = [] then Some (Inl NoProjectsSpecified, fs)
             else deploySubdeployment n w this (map projectName settings) None fs))"

text \<open>
  \<^verbatim>\<open>deployScenario\<close>.  A run that throws leaves the filesystem as it was at the throw.
\<close>

definition deployScenario ::
    "nat \<Rightarrow> world \<Rightarrow> DeployManager \<Rightarrow> filesystem \<Rightarrow> string \<Rightarrow> bool \<Rightarrow> string option \<Rightarrow>
     ((error + unit) \<times> filesystem) option" where
  "deployScenario n w this fs scenarioName overwriteExisting targetFolderParameter =
     (case loadConfigFile w fs this scenarioName of
        Inl e \<Rightarrow> Some (Inl e, fs)
      | Inr this1 \<Rightarrow>
          (case resolveTargetRootFolder w fs targetFolderParameter of
             Inl e \<Rightarrow> Some (Inl e, fs)
           | Inr root \<Rightarrow>
               let this2 = this1\<lparr>targetRootFolder := root,
                                  sourceRootFolder := rushJsonFolder (rushConfiguration w)\<rparr>;
                   fs1 = ensureFolder fs root
               in
               if readFolder fs1 root \<noteq> [] then
                 (if overwriteExisting
                  then deployProjects n w this2 (ensureEmptyFolder fs1 root)
                  else Some (Inl TargetFolderNotEmpty, fs1))
               else deployProjects n w this2 fs1))"

text \<open>The manager as its constructor leaves it: no field of a run is assigned yet.\<close>

definition new_DeployManager :: DeployManager where
  "new_DeployManager =
     \<lparr>targetRootFolder = [], sourceRootFolder = [],
      deployScenarioJson =
        \<lparr>includeDevDependencies = None, includeNpmIgnoreFiles = None, symlinkCreation = None,
         projectSettings = None, subdeployments = None\<rparr>,
      deployScenarioProjectJsonsByName = []\<rparr>"

section \<open>An example workspace\<close>

text \<open>
  Two projects that depend on each other.  Project \<open>a\<close> also has a development
  dependency \<open>c\<close> and a peer dependency \<open>d\<close>, and neither of the two is installed.
\<close>

definition manifest_a :: IPackageJson where
  "manifest_a =
     \<lparr>dependencies = Some [(''b'', ''1.0.0'')],
      devDependencies = Some [(''c'', ''1.0.0'')],
      peerDependencies = Some [(''d'', ''1.0.0'')],
      optionalDependencies = None\<rparr>"

definition manifest_b :: IPackageJson where
  "manifest_b =
     \<lparr>dependencies = Some [(''a'', ''1.0.0'')],
      devDependencies = None,
      peerDependencies = None,
      optionalDependencies = None\<rparr>"

definition example_registry :: RushConfiguration where
  "example_registry =
     \<lparr>commonFolder = [''repo'', ''common''],
      rushJsonFolder = [''repo''],
      projects = [(''a'', \<lparr>projectFolder = [''repo'', ''a'']\<rparr>),
                  (''b'', \<lparr>projectFolder = [''repo'', ''b'']\<rparr>)]\<rparr>"

definition example_resolve :: "filesystem \<Rightarrow> string \<Rightarrow> path \<Rightarrow> resolve_outcome" where
  "example_resolve fs name' basedir =
     (if name' = ''a'' then ResolveReturns [] (Some [''repo'', ''a'', ''package.json''])
      else if name' = ''b'' then ResolveReturns [] (Some [''repo'', ''b'', ''package.json''])
      else ResolveReturns [] None)"

text \<open>
  The same resolution with the failure of the \<^verbatim>\<open>resolve\<close> package: a module that is not
  installed makes the call throw.
\<close>

definition throwing_resolve :: "filesystem \<Rightarrow> string \<Rightarrow> path \<Rightarrow> resolve_outcome" where
  "throwing_resolve fs name' basedir =
     (if name' = ''a'' then ResolveReturns [] (Some [''repo'', ''a'', ''package.json''])
      else if name' = ''b'' then ResolveReturns [] (Some [''repo'', ''b'', ''package.json''])
      else ResolveThrows ''MODULE_NOT_FOUND'')"

definition example_world :: "string \<Rightarrow> world" where
  "example_world platform' =
     \<lparr>platform = platform',
      cwd = [''repo''],
      rushConfiguration = example_registry,
      resolve_sync = example_resolve,
      getRealPath = (\<lambda>fs p. p),
      reportSymlinks = (\<lambda>fs analyzed. [])\<rparr>"

definition scenario :: "IDeployScenarioProjectJson list option \<Rightarrow> IDeploySubdeploymentsJson option
    \<Rightarrow> IDeployScenarioJson" where
  "scenario settings sub =
     \<lparr>includeDevDependencies = None, includeNpmIgnoreFiles = None, symlinkCreation = None,
      projectSettings = settings, subdeployments = sub\<rparr>"

definition example_sources :: filesystem where
  "example_sources =
     [([''repo'', ''a'', ''package.json''], File (ManifestContent manifest_a)),
      ([''repo'', ''a'', ''index.js''], File OtherContent),
      ([''repo'', ''a'', ''node_modules'', ''b''],
         Link SymbolicLinkFolder (RelativeTarget [''..'', ''..'', ''b''])),
      ([''repo'', ''b'', ''package.json''], File (ManifestContent manifest_b))]"

text \<open>Scenario files of the example, and a deploy folder that holds a file of an older run.\<close>

definition project_setting :: "string \<Rightarrow> string list option \<Rightarrow> IDeployScenarioProjectJson" where
  "project_setting name' additional =
     \<lparr>projectName = name', subdeploymentFolderName = None,
      additionalProjectsToInclude = additional\<rparr>"

definition scenario_file :: "string \<Rightarrow> IDeployScenarioJson \<Rightarrow> path \<times> fs_node" where
  "scenario_file name' json =
     ([''repo'', ''common'', ''config'', ''deploy-scenarios'', name' @ ''.json''],
      File (ScenarioContent json))"

definition old_deploy_file :: "path \<times> fs_node" where
  "old_deploy_file = ([''repo'', ''common'', ''deploy'', ''old.txt''], File OtherContent)"

definition example_manager :: DeployManager where
  "example_manager =
     new_DeployManager\<lparr>targetRootFolder := [''out''], sourceRootFolder := [''repo'']\<rparr>"

definition empty_state :: "path \<Rightarrow> ISubdeploymentState" where
  "empty_state target =
     \<lparr>targetSubdeploymentFolder = target, symlinkAnalyzer = [], foldersToCopy = []\<rparr>"

text \<open>A scenario with subdeployments that names no subdeployment project.\<close>

definition noSubdeploymentProjects :: "IDeployScenarioJson \<Rightarrow> bool" where
  "noSubdeploymentProjects json =
     (case subdeployments json of
        None \<Rightarrow> True
      | Some sub \<Rightarrow> subdeploymentProjects sub = None \<or> subdeploymentProjects sub = Some [])"

text \<open>
  The example workspace with a scenario file \<open>s\<close> and an old deploy folder; the same with
  a scenario whose project setting includes a project that the registry does not have;
  and a project whose \<open>node_modules\<close> folder is itself a symbolic link.
\<close>

definition example_workspace :: "IDeployScenarioJson \<Rightarrow> filesystem" where
  "example_workspace json = example_sources @ [scenario_file ''s'' json, old_deploy_file]"

definition ghost_workspace :: filesystem where
  "ghost_workspace =
     example_sources @
     [scenario_file ''ghost'' (scenario (Some [project_setting ''a'' (Some [''ghost''])]) None),
      old_deploy_file]"

definition linked_store_workspace :: filesystem where
  "linked_store_workspace =
     [([''repo'', ''a'', ''package.json''], File (ManifestContent manifest_a)),
      ([''repo'', ''a'', ''index.js''], File OtherContent),
      ([''repo'', ''a'', ''docs''], Link SymbolicLinkFolder (AbsoluteTarget [''repo'', ''docs''])),
      ([''repo'', ''a'', ''node_modules''], Link SymbolicLinkFolder (AbsoluteTarget [''store'']))]"

text \<open>The folders that hold an entry of the filesystem: a finite set.\<close>

definition entryFolders :: "filesystem \<Rightarrow> path set" where
  "entryFolders fs = path_dirname ` fst ` set fs"

section \<open>Properties of the path functions\<close>

lemma normalize_append:
  "path_normalize (xs @ ys) = foldl normalize_step (path_normalize xs) ys"
  by (simp add: path_normalize_def)

lemma foldl_normalize_step_plain:
  "list_all plain_segment ys \<Longrightarrow> foldl normalize_step acc ys = acc @ ys"
  by (induction ys arbitrary: acc) (auto simp: normalize_step_def plain_segment_def)

lemma normalize_step_plain:
  "list_all plain_segment acc \<Longrightarrow> list_all plain_segment (normalize_step acc s)"
  by (auto simp: normalize_step_def plain_segment_def list_all_iff dest: in_set_butlastD)

lemma foldl_normalize_step_all_plain:
  "list_all plain_segment acc \<Longrightarrow> list_all plain_segment (foldl normalize_step acc ys)"
  by (induction ys arbitrary: acc) (simp_all add: normalize_step_plain)

lemma normalize_plain: "list_all plain_segment (path_normalize xs)"
  by (simp add: path_normalize_def foldl_normalize_step_all_plain)

lemma normalize_idem: "path_normalize (path_normalize xs) = path_normalize xs"
  using foldl_normalize_step_plain [OF normalize_plain, of "[]" xs]
  by (simp add: path_normalize_def)

lemma strip_common_prefix: "strip_common xs (xs @ zs) = ([], zs)"
  by (induction xs) simp_all

lemma path_relative_under:
  assumes "isUnderOrEqual p root"
  shows "path_relative root p = drop (length (path_normalize root)) (path_normalize p)"
proof -
  from assms obtain zs where zs: "path_normalize p = path_normalize root @ zs"
    by (auto simp: isUnderOrEqual_def prefix_def)
  then show ?thesis
    by (simp add: path_relative_def strip_common_prefix)
qed

lemma path_join_under:
  assumes "isUnderOrEqual p root"
  shows "path_join tgt (path_relative root p) =
         path_normalize tgt @ drop (length (path_normalize root)) (path_normalize p)"
proof -
  have "list_all plain_segment (drop (length (path_normalize root)) (path_normalize p))"
    using normalize_plain [of p] by (auto simp: list_all_iff dest: in_set_dropD)
  then show ?thesis
    by (simp add: path_join_def normalize_append path_relative_under [OF assms]
        foldl_normalize_step_plain)
qed

section \<open>Properties of the resolver\<close>

lemma load_manifest_folder:
  "JsonFile_load_manifest fs p = Inr pj \<Longrightarrow> path_dirname p \<in> entryFolders fs"
proof -
  assume "JsonFile_load_manifest fs p = Inr pj"
  then have "map_of fs p \<noteq> None"
    by (auto simp: JsonFile_load_manifest_def split: option.splits)
  then obtain n where "(p, n) \<in> set fs"
    by (auto dest: map_of_SomeD)
  then have "p \<in> fst ` set fs" by force
  then show ?thesis by (simp add: entryFolders_def)
qed

lemma finite_entryFolders: "finite (entryFolders fs)"
  by (simp add: entryFolders_def)

lemma card_less_insert:
  "finite U \<Longrightarrow> x \<in> U \<Longrightarrow> x \<notin> V \<Longrightarrow> card (U - V) < Suc n \<Longrightarrow> card (U - insert x V) < n"
proof -
  assume a: "finite U" "x \<in> U" "x \<notin> V" "card (U - V) < Suc n"
  have "U - insert x V = (U - V) - {x}" by auto
  moreover have "x \<in> U - V" using a by simp
  moreover have "finite (U - V)" using a by simp
  ultimately have "card (U - insert x V) < card (U - V)"
    using card_Diff1_less [of "U - V" x] by simp
  then show ?thesis using a by linarith
qed

lemma collect_terminates_aux:
  "(card (entryFolders fs - set (foldersToCopy st)) < n \<longrightarrow>
      (\<exists>r. collectFoldersRecursive n w json fs p st = Some r \<and>
           (\<forall>st'. r = Inr st' \<longrightarrow> set (foldersToCopy st) \<subseteq> set (foldersToCopy st'))))"
  "(card (entryFolders fs - set (foldersToCopy st)) < n \<longrightarrow>
      (\<exists>r. collectDependencies n w json fs p opt ds st = Some r \<and>
           (\<forall>st'. r = Inr st' \<longrightarrow> set (foldersToCopy st) \<subseteq> set (foldersToCopy st'))))"
proof (induction n w json fs p st and n w json fs p opt ds st rule: collectFoldersRecursive_collectDependencies.induct)
  case (1 w json fs packageJsonPath st)
  then show ?case by simp
next
  case (2 n w json fs packageJsonPath st)
  let ?d = "path_dirname packageJsonPath"
  let ?U = "entryFolders fs"
  show ?case
  proof (intro impI)
    assume c: "card (?U - set (foldersToCopy st)) < Suc n"
    show "\<exists>r. collectFoldersRecursive (Suc n) w json fs packageJsonPath st = Some r \<and>
        (\<forall>st'. r = Inr st' \<longrightarrow> set (foldersToCopy st) \<subseteq> set (foldersToCopy st'))"
    proof (cases "?d \<in> set (foldersToCopy st)")
      case True
      then show ?thesis by simp
    next
      case False
      show ?thesis
      proof (cases "JsonFile_load_manifest fs packageJsonPath")
        case (Inl e)
        with False show ?thesis by simp
      next
        case (Inr pj)
        let ?st1 = "st\<lparr>foldersToCopy := Set_add (foldersToCopy st) ?d\<rparr>"
        have v: "set (foldersToCopy ?st1) = insert ?d (set (foldersToCopy st))"
          by (auto simp: Set_add_def)
        have "card (?U - set (foldersToCopy ?st1)) < n"
          unfolding v
          using card_less_insert [OF finite_entryFolders load_manifest_folder [OF Inr] False c] .
        with "2.IH" [OF False Inr]
        obtain r where r: "collectDependencies n w json fs packageJsonPath
              (snd (dependencyNames json pj)) (fst (dependencyNames json pj)) ?st1 = Some r"
            "\<forall>st'. r = Inr st' \<longrightarrow> set (foldersToCopy ?st1) \<subseteq> set (foldersToCopy st')"
          by blast
        from r(2) v have "\<forall>st'. r = Inr st' \<longrightarrow> set (foldersToCopy st) \<subseteq> set (foldersToCopy st')"
          by auto
        with r(1) False Inr show ?thesis by simp
      qed
    qed
  qed
next
  case (3 n w json fs packageJsonPath optionalDependencyNames st)
  then show ?case by simp
next
  case (4 n w json fs packageJsonPath optionalDependencyNames dependencyPackageName rest st)
  let ?U = "entryFolders fs"
  show ?case
  proof (intro impI)
    assume c: "card (?U - set (foldersToCopy st)) < n"
    show "\<exists>r. collectDependencies n w json fs packageJsonPath optionalDependencyNames
               (dependencyPackageName # rest) st = Some r \<and>
        (\<forall>st'. r = Inr st' \<longrightarrow> set (foldersToCopy st) \<subseteq> set (foldersToCopy st'))"
    proof (cases "resolve_sync w fs dependencyPackageName (path_dirname packageJsonPath)")
      case (ResolveThrows msg)
      then show ?thesis by simp
    next
      case (ResolveReturns analyzed resolved)
      let ?st1 = "st\<lparr>symlinkAnalyzer := symlinkAnalyzer st @ analyzed\<rparr>"
      have c1: "card (?U - set (foldersToCopy ?st1)) < n" using c by simp
      show ?thesis
      proof (cases resolved)
        case None
        show ?thesis
        proof (cases "dependencyPackageName \<in> set optionalDependencyNames")
          case True
          from "4.IH"(1) [OF ResolveReturns None True] c1 ResolveReturns None True
          show ?thesis by simp
        next
          case False
          with ResolveReturns None show ?thesis by simp
        qed
      next
        case (Some x)
        show ?thesis
        proof (cases "tryGetPackageJsonFilePathFor fs x")
          case None
          with ResolveReturns Some show ?thesis by simp
        next
          case (Some pjp)
          note S2 = this
          from "4.IH"(2) [OF ResolveReturns \<open>resolved = Some x\<close> S2] c1
          obtain r where r: "collectFoldersRecursive n w json fs pjp ?st1 = Some r"
            "\<forall>st'. r = Inr st' \<longrightarrow> set (foldersToCopy ?st1) \<subseteq> set (foldersToCopy st')"
            by blast
          show ?thesis
          proof (cases r)
            case (Inl e)
            with r ResolveReturns \<open>resolved = Some x\<close> S2 show ?thesis by simp
          next
            case (Inr st2)
            with r(2) have sub: "set (foldersToCopy st) \<subseteq> set (foldersToCopy st2)" by simp
            have "?U - set (foldersToCopy st2) \<subseteq> ?U - set (foldersToCopy st)"
              using sub by blast
            then have "card (?U - set (foldersToCopy st2)) \<le> card (?U - set (foldersToCopy st))"
              by (intro card_mono) (simp_all add: finite_entryFolders)
            with c have c2: "card (?U - set (foldersToCopy st2)) < n" by simp
            from "4.IH"(3) [OF ResolveReturns \<open>resolved = Some x\<close> S2 r(1) Inr] c2
            obtain r' where r': "collectDependencies n w json fs packageJsonPath
                 optionalDependencyNames rest st2 = Some r'"
              "\<forall>st'. r' = Inr st' \<longrightarrow> set (foldersToCopy st2) \<subseteq> set (foldersToCopy st')"
              by blast
            from r'(2) sub have "\<forall>st'. r' = Inr st' \<longrightarrow> set (foldersToCopy st) \<subseteq> set (foldersToCopy st')"
              by blast
            with r'(1) r(1) Inr ResolveReturns \<open>resolved = Some x\<close> S2 show ?thesis by simp
          qed
        qed
      qed
    qed
  qed
qed

lemma Set_add_distinct: "distinct s \<Longrightarrow> distinct (Set_add s x)"
  by (simp add: Set_add_def)

lemma collect_distinct_aux:
  "distinct (foldersToCopy st) \<longrightarrow>
     (\<forall>st'. collectFoldersRecursive n w json fs p st = Some (Inr st') \<longrightarrow> distinct (foldersToCopy st'))"
  "distinct (foldersToCopy st) \<longrightarrow>
     (\<forall>st'. collectDependencies n w json fs p opt ds st = Some (Inr st') \<longrightarrow> distinct (foldersToCopy st'))"
proof (induction n w json fs p st and n w json fs p opt ds st rule: collectFoldersRecursive_collectDependencies.induct)
  case (1 w json fs packageJsonPath st)
  then show ?case by simp
next
  case (2 n w json fs packageJsonPath st)
  show ?case
  proof (intro impI allI)
    fix st'
    assume d: "distinct (foldersToCopy st)"
      and r: "collectFoldersRecursive (Suc n) w json fs packageJsonPath st = Some (Inr st')"
    show "distinct (foldersToCopy st')"
    proof (cases "path_dirname packageJsonPath \<in> set (foldersToCopy st)")
      case True
      with r d show ?thesis by simp
    next
      case False
      show ?thesis
      proof (cases "JsonFile_load_manifest fs packageJsonPath")
        case (Inl e)
        with False r show ?thesis by simp
      next
        case (Inr pj)
        from "2.IH" [OF False Inr] d r False Inr show ?thesis
          by (simp add: Set_add_distinct)
      qed
    qed
  qed
next
  case (3 n w json fs packageJsonPath optionalDependencyNames st)
  then show ?case by simp
next
  case (4 n w json fs packageJsonPath optionalDependencyNames dependencyPackageName rest st)
  show ?case
  proof (intro impI allI)
    fix st'
    assume d: "distinct (foldersToCopy st)"
      and r: "collectDependencies n w json fs packageJsonPath optionalDependencyNames
                (dependencyPackageName # rest) st = Some (Inr st')"
    show "distinct (foldersToCopy st')"
    proof (cases "resolve_sync w fs dependencyPackageName (path_dirname packageJsonPath)")
      case (ResolveThrows msg)
      with r show ?thesis by simp
    next
      case (ResolveReturns analyzed resolved)
      show ?thesis
      proof (cases resolved)
        case None
        show ?thesis
        proof (cases "dependencyPackageName \<in> set optionalDependencyNames")
          case True
          from "4.IH"(1) [OF ResolveReturns None True] d r ResolveReturns None True
          show ?thesis by simp
        next
          case False
          with ResolveReturns None r show ?thesis by simp
        qed
      next
        case (Some x)
        note S1 = this
        show ?thesis
        proof (cases "tryGetPackageJsonFilePathFor fs x")
          case None
          with ResolveReturns S1 r show ?thesis by simp
        next
          case (Some pjp)
          note S2 = this
          let ?st1 = "st\<lparr>symlinkAnalyzer := symlinkAnalyzer st @ analyzed\<rparr>"
          show ?thesis
          proof (cases "collectFoldersRecursive n w json fs pjp ?st1")
            case None
            with ResolveReturns S1 S2 r show ?thesis by simp
          next
            case (Some res)
            note S3 = this
            show ?thesis
            proof (cases res)
              case (Inl e)
              with ResolveReturns S1 S2 S3 r show ?thesis by simp
            next
              case (Inr st2)
              from "4.IH"(2) [OF ResolveReturns S1 S2] d S3 Inr
              have "distinct (foldersToCopy st2)" by simp
              with "4.IH"(3) [OF ResolveReturns S1 S2 S3 Inr] r ResolveReturns S1 S2 S3 Inr
              show ?thesis by simp
            qed
          qed
        qed
      qed
    qed
  qed
qed

lemma collect_fuel_Suc_aux:
  "\<forall>r. collectFoldersRecursive n w json fs p st = Some r \<longrightarrow>
        collectFoldersRecursive (Suc n) w json fs p st = Some r"
  "\<forall>r. collectDependencies n w json fs p opt ds st = Some r \<longrightarrow>
        collectDependencies (Suc n) w json fs p opt ds st = Some r"
proof (induction n w json fs p st and n w json fs p opt ds st rule: collectFoldersRecursive_collectDependencies.induct)
  case (1 w json fs packageJsonPath st)
  then show ?case by simp
next
  case (2 n w json fs packageJsonPath st)
  show ?case
  proof (intro impI allI)
    fix r
    assume r: "collectFoldersRecursive (Suc n) w json fs packageJsonPath st = Some r"
    show "collectFoldersRecursive (Suc (Suc n)) w json fs packageJsonPath st = Some r"
    proof (cases "path_dirname packageJsonPath \<in> set (foldersToCopy st)")
      case True
      with r show ?thesis by simp
    next
      case False
      show ?thesis
      proof (cases "JsonFile_load_manifest fs packageJsonPath")
        case (Inl e)
        with False r show ?thesis by simp
      next
        case (Inr pj)
        from r False Inr have "collectDependencies n w json fs packageJsonPath
            (snd (dependencyNames json pj)) (fst (dependencyNames json pj))
            (st\<lparr>foldersToCopy := Set_add (foldersToCopy st) (path_dirname packageJsonPath)\<rparr>) = Some r"
          by simp
        with "2.IH" [OF False Inr] have "collectDependencies (Suc n) w json fs packageJsonPath
            (snd (dependencyNames json pj)) (fst (dependencyNames json pj))
            (st\<lparr>foldersToCopy := Set_add (foldersToCopy st) (path_dirname packageJsonPath)\<rparr>) = Some r"
          by blast
        with False Inr show ?thesis
          by (simp only: collectFoldersRecursive.simps if_False sum.case)
      qed
    qed
  qed
next
  case (3 n w json fs packageJsonPath optionalDependencyNames st)
  then show ?case by simp
next
  case (4 n w json fs packageJsonPath optionalDependencyNames dependencyPackageName rest st)
  note simps = collectDependencies.simps(2) [of _ w json fs packageJsonPath
      optionalDependencyNames dependencyPackageName rest st]
  show ?case
  proof (intro impI allI)
    fix r
    assume r: "collectDependencies n w json fs packageJsonPath optionalDependencyNames
                (dependencyPackageName # rest) st = Some r"
    show "collectDependencies (Suc n) w json fs packageJsonPath optionalDependencyNames
                (dependencyPackageName # rest) st = Some r"
    proof (cases "resolve_sync w fs dependencyPackageName (path_dirname packageJsonPath)")
      case (ResolveThrows msg)
      with r show ?thesis by (simp add: simps)
    next
      case (ResolveReturns analyzed resolved)
      show ?thesis
      proof (cases resolved)
        case None
        show ?thesis
        proof (cases "dependencyPackageName \<in> set optionalDependencyNames")
          case True
          from "4.IH"(1) [OF ResolveReturns None True] r ResolveReturns None True
          show ?thesis by (simp add: simps)
        next
          case False
          with ResolveReturns None r show ?thesis by (simp add: simps)
        qed
      next
        case (Some x)
        note S1 = this
        show ?thesis
        proof (cases "tryGetPackageJsonFilePathFor fs x")
          case None
          with ResolveReturns S1 r show ?thesis by (simp add: simps)
        next
          case (Some pjp)
          note S2 = this
          let ?st1 = "st\<lparr>symlinkAnalyzer := symlinkAnalyzer st @ analyzed\<rparr>"
          show ?thesis
          proof (cases "collectFoldersRecursive n w json fs pjp ?st1")
            case None
            with ResolveReturns S1 S2 r show ?thesis by (simp add: simps)
          next
            case (Some res)
            note S3 = this
            with "4.IH"(2) [OF ResolveReturns S1 S2]
            have S4: "collectFoldersRecursive (Suc n) w json fs pjp ?st1 = Some res" by blast
            show ?thesis
            proof (cases res)
              case (Inl e)
              with r ResolveReturns S1 S2 S3 have "r = Inl e"
                by (simp add: simps del: collectFoldersRecursive.simps)
              with ResolveReturns S1 S2 S4 Inl show ?thesis
                by (simp add: simps del: collectFoldersRecursive.simps)
            next
              case (Inr st2)
              from r ResolveReturns S1 S2 S3 Inr
              have "collectDependencies n w json fs packageJsonPath optionalDependencyNames rest st2 = Some r"
                by (simp add: simps del: collectFoldersRecursive.simps)
              with "4.IH"(3) [OF ResolveReturns S1 S2 S3 Inr]
              have "collectDependencies (Suc n) w json fs packageJsonPath optionalDependencyNames rest st2 = Some r"
                by blast
              with ResolveReturns S1 S2 S4 Inr show ?thesis
                by (simp add: simps del: collectFoldersRecursive.simps)
            qed
          qed
        qed
      qed
    qed
  qed
qed

lemma collect_fuel_mono:
  "collectFoldersRecursive n w json fs p st = Some r \<Longrightarrow> n \<le> m \<Longrightarrow>
   collectFoldersRecursive m w json fs p st = Some r"
proof (induction m)
  case 0
  then show ?case by simp
next
  case (Suc m)
  show ?case
  proof (cases "n = Suc m")
    case True
    with Suc show ?thesis by simp
  next
    case False
    with Suc have "collectFoldersRecursive m w json fs p st = Some r" by simp
    with collect_fuel_Suc_aux(1) [of m w json fs p st] show ?thesis by blast
  qed
qed


lemma resolve_throws_aborts:
  "resolve_sync w fs d (path_dirname p) = ResolveThrows msg \<Longrightarrow>
   collectDependencies n w json fs p opt (d # rest) st = Some (Inl (ResolveThrew msg))"
  by simp

lemma falsy_resolution_lenient:
  "resolve_sync w fs d (path_dirname p) = ResolveReturns analyzed None \<Longrightarrow> d \<in> set opt \<Longrightarrow>
   collectDependencies n w json fs p opt (d # rest) st =
     collectDependencies n w json fs p opt rest
       (st\<lparr>symlinkAnalyzer := symlinkAnalyzer st @ analyzed\<rparr>)"
  by simp

lemma falsy_resolution_required:
  "resolve_sync w fs d (path_dirname p) = ResolveReturns analyzed None \<Longrightarrow> d \<notin> set opt \<Longrightarrow>
   collectDependencies n w json fs p opt (d # rest) st = Some (Inl (ErrorResolving d p))"
  by simp

lemmas example_defs =
  example_world_def example_resolve_def example_sources_def example_registry_def
  manifest_a_def manifest_b_def scenario_def empty_state_def
  JsonFile_load_manifest_def dependencyNames_def objectKeys_def Set_add_def path_dirname_def
  tryGetPackageJsonFilePathFor_def fs_exists_def path_normalize_def normalize_step_def

section \<open>Properties of the filesystem primitives\<close>

lemma fs_exists_iff: "fs_exists fs p \<longleftrightarrow> (\<exists>q \<in> fst ` set fs. prefix p q)"
  by (force simp: fs_exists_def list_ex_iff)

lemma fs_exists_append: "fs_exists (fs @ fs') p \<longleftrightarrow> fs_exists fs p \<or> fs_exists fs' p"
  by (simp add: fs_exists_def)

lemma fs_exists_ensureFolder: "fs_exists (ensureFolder fs p) p"
  by (simp add: ensureFolder_def fs_exists_append) (simp add: fs_exists_def)

lemma ensureFolder_existing: "fs_exists fs p \<Longrightarrow> ensureFolder fs p = fs"
  by (simp add: ensureFolder_def)

lemma readFolder_empty_iff: "readFolder fs p = [] \<longleftrightarrow> (\<forall>q \<in> fst ` set fs. \<not> strict_prefix p q)"
  by (force simp: readFolder_def filter_empty_conv)

lemma readFolder_ensureFolder: "readFolder (ensureFolder fs p) p = [] \<longleftrightarrow> readFolder fs p = []"
  by (auto simp: readFolder_empty_iff ensureFolder_def)

lemma readFolder_ensureEmptyFolder: "readFolder (ensureEmptyFolder fs p) p = []"
  by (auto simp: ensureEmptyFolder_def readFolder_ensureFolder) (auto simp: readFolder_empty_iff)

lemma fs_exists_ensureEmptyFolder: "fs_exists (ensureEmptyFolder fs p) p"
  by (simp add: ensureEmptyFolder_def fs_exists_ensureFolder)

lemma nonempty_exists: "readFolder fs p \<noteq> [] \<Longrightarrow> fs_exists fs p"
  by (auto simp: readFolder_empty_iff fs_exists_iff strict_prefix_def)

lemma ensureEmptyFolder_outside:
  "\<not> prefix p q \<Longrightarrow> (q, node) \<in> set (ensureEmptyFolder fs p) \<longleftrightarrow> (q, node) \<in> set fs"
  by (auto simp: ensureEmptyFolder_def ensureFolder_def strict_prefix_def)

lemma ensureFolder_outside:
  "\<not> prefix p q \<Longrightarrow> (q, node) \<in> set (ensureFolder fs p) \<longleftrightarrow> (q, node) \<in> set fs"
  by (auto simp: ensureFolder_def)

lemma fs_write_fst: "fst ` set (fs_write p n fs) = insert p (fst ` set fs)"
  by (force simp: fs_write_def split: if_splits)

lemma map_of_replace:
  "p \<in> fst ` set fs \<Longrightarrow>
   map_of (map (\<lambda>(q, m). if q = p then (q, n) else (q, m)) fs) p = Some n"
  by (induction fs) auto

lemma map_of_fs_write: "map_of (fs_write p n fs) p = Some n"
proof (cases "p \<in> fst ` set fs")
  case True
  then show ?thesis by (simp add: fs_write_def map_of_replace)
next
  case False
  then have "map_of fs p = None" by (simp add: map_of_eq_None_iff)
  with False show ?thesis by (simp add: fs_write_def map_add_def)
qed

lemma fs_exists_fs_write: "fs_exists (fs_write p n fs) q \<longleftrightarrow> fs_exists fs q \<or> prefix q p"
  by (auto simp: fs_exists_iff fs_write_fst)

lemma isSymbolicLink_append:
  "q \<in> fst ` set fs0 \<Longrightarrow> isSymbolicLink (fs0 @ extra) q = isSymbolicLink fs0 q"
proof -
  assume "q \<in> fst ` set fs0"
  then have "map_of fs0 q \<noteq> None" by (simp add: map_of_eq_None_iff)
  then show ?thesis by (auto simp: isSymbolicLink_def map_add_def split: option.splits)
qed

lemma key_exists: "p \<in> fst ` set fs \<Longrightarrow> fs_exists fs p"
  by (auto simp: fs_exists_iff)

lemma fs_write_new: "\<not> fs_exists fs p \<Longrightarrow> fs_write p n fs = fs @ [(p, n)]"
  using key_exists [of p fs] by (auto simp: fs_write_def)

section \<open>Properties of the copy\<close>

lemma normalize_plain_id: "list_all plain_segment q \<Longrightarrow> path_normalize q = q"
  using foldl_normalize_step_plain [of q "[]"] by (simp add: path_normalize_def)

lemma isUnderOrEqual_below:
  assumes "prefix r q" and "list_all plain_segment q" and "isUnderOrEqual r ign"
  shows "isUnderOrEqual q ign"
proof -
  from assms(1) obtain zs where q: "q = r @ zs" by (auto simp: prefix_def)
  with assms(2) have "list_all plain_segment r" by simp
  then have "path_normalize r = r" by (rule normalize_plain_id)
  with assms(3) have "prefix (path_normalize ign) r" by (simp add: isUnderOrEqual_def)
  with assms(1) have "prefix (path_normalize ign) q" by (meson prefix_order.trans)
  with assms(2) show ?thesis by (simp add: isUnderOrEqual_def normalize_plain_id)
qed

lemma copyWalk_frame:
  assumes "copyWalk (copyFilter ign) src dest entries rejected fs st = (r, fs')"
    and "set entries \<subseteq> set fs0"
    and "fs = fs0 @ extra"
  shows "\<exists>new. fs' = fs @ new \<and>
           (\<forall>(d, node) \<in> set new. \<exists>q. (q, node) \<in> set entries \<and>
               d = dest @ drop (length src) q \<and> \<not> isUnderOrEqual q ign \<and>
               \<not> isSymbolicLink fs0 q)"
  using assms
proof (induction entries arbitrary: rejected fs st extra)
  case Nil
  then show ?case by simp
next
  case (Cons e entries)
  obtain q node where e: "e = (q, node)" by (cases e)
  from Cons.prems(2) e have qin: "q \<in> fst ` set fs0" by force
  from Cons.prems(2) have sub: "set entries \<subseteq> set fs0" by simp
  let ?d = "dest @ drop (length src) q"
  have weaken: "\<exists>new. fs' = fs @ new \<and>
           (\<forall>(d, node) \<in> set new. \<exists>q. (q, node) \<in> set (e # entries) \<and>
               d = dest @ drop (length src) q \<and> \<not> isUnderOrEqual q ign \<and>
               \<not> isSymbolicLink fs0 q)"
    if "\<exists>new. fs' = fs @ new \<and>
           (\<forall>(d, node) \<in> set new. \<exists>q. (q, node) \<in> set entries \<and>
               d = dest @ drop (length src) q \<and> \<not> isUnderOrEqual q ign \<and>
               \<not> isSymbolicLink fs0 q)"
    using that by fastforce
  show ?case
  proof (cases "list_ex (\<lambda>r. prefix r q) rejected")
    case True
    with Cons.prems(1) e
    have "copyWalk (copyFilter ign) src dest entries rejected fs st = (r, fs')" by simp
    from Cons.IH [OF this sub Cons.prems(3)] show ?thesis by (rule weaken)
  next
    case notrej: False
    show ?thesis
    proof (cases "isUnderOrEqual q ign")
      case True
      then have "copyFilter ign fs q st = (False, st)" by (simp add: copyFilter_def)
      with Cons.prems(1) e notrej
      have "copyWalk (copyFilter ign) src dest entries (q # rejected) fs st = (r, fs')"
        by simp
      from Cons.IH [OF this sub Cons.prems(3)] show ?thesis by (rule weaken)
    next
      case notunder: False
      show ?thesis
      proof (cases "isSymbolicLink fs q")
        case True
        with notunder have "copyFilter ign fs q st =
            (False, st\<lparr>symlinkAnalyzer := symlinkAnalyzer st @ [q]\<rparr>)"
          by (simp add: copyFilter_def)
        with Cons.prems(1) e notrej
        have "copyWalk (copyFilter ign) src dest entries (q # rejected) fs
                (st\<lparr>symlinkAnalyzer := symlinkAnalyzer st @ [q]\<rparr>) = (r, fs')"
          by simp
        from Cons.IH [OF this sub Cons.prems(3)] show ?thesis by (rule weaken)
      next
        case notlink: False
        then have notlink0: "\<not> isSymbolicLink fs0 q"
          using qin Cons.prems(3) by (simp add: isSymbolicLink_append)
        have accepted: "copyFilter ign fs q st = (True, st)"
          using notunder notlink by (simp add: copyFilter_def)
        show ?thesis
        proof (cases "node = Folder")
          case True
          with Cons.prems(1) e notrej accepted
          have walk: "copyWalk (copyFilter ign) src dest entries rejected (ensureFolder fs ?d) st =
              (r, fs')"
            by simp
          define added where "added = (if fs_exists fs ?d then [] else [(?d, Folder)])"
          have added: "ensureFolder fs ?d = fs @ added"
              "added = [] \<or> added = [(?d, Folder)]"
            by (simp_all add: ensureFolder_def added_def)
          from added(1) Cons.prems(3) have "ensureFolder fs ?d = fs0 @ (extra @ added)" by simp
          from Cons.IH [OF walk sub this] obtain new where
            new: "fs' = ensureFolder fs ?d @ new"
              "\<forall>(d, node) \<in> set new. \<exists>q. (q, node) \<in> set entries \<and>
                 d = dest @ drop (length src) q \<and> \<not> isUnderOrEqual q ign \<and>
                 \<not> isSymbolicLink fs0 q"
            by blast
          have "fs' = fs @ (added @ new)" using new(1) added(1) by simp
          moreover have "\<forall>(d, node) \<in> set (added @ new). \<exists>q. (q, node) \<in> set (e # entries) \<and>
                 d = dest @ drop (length src) q \<and> \<not> isUnderOrEqual q ign \<and>
                 \<not> isSymbolicLink fs0 q"
            using new(2) added(2) e True notunder notlink0 by fastforce
          ultimately show ?thesis by blast
        next
          case notfolder: False
          show ?thesis
          proof (cases "fs_exists fs ?d")
            case True
            with Cons.prems(1) e notrej accepted notfolder have "fs' = fs"
              by (cases node) auto
            then show ?thesis by simp
          next
            case False
            with Cons.prems(1) e notrej accepted notfolder
            have walk: "copyWalk (copyFilter ign) src dest entries rejected (fs_write ?d node fs) st =
                (r, fs')"
              by (cases node) auto
            have w: "fs_write ?d node fs = fs @ [(?d, node)]"
              using False by (rule fs_write_new)
            with Cons.prems(3) have "fs_write ?d node fs = fs0 @ (extra @ [(?d, node)])" by simp
            from Cons.IH [OF walk sub this] obtain new where
              new: "fs' = fs_write ?d node fs @ new"
                "\<forall>(d, node) \<in> set new. \<exists>q. (q, node) \<in> set entries \<and>
                   d = dest @ drop (length src) q \<and> \<not> isUnderOrEqual q ign \<and>
                   \<not> isSymbolicLink fs0 q"
              by blast
            have "fs' = fs @ ((?d, node) # new)" using new(1) w by simp
            moreover have "\<forall>(d, node) \<in> set ((?d, node) # new). \<exists>q. (q, node) \<in> set (e # entries) \<and>
                   d = dest @ drop (length src) q \<and> \<not> isUnderOrEqual q ign \<and>
                   \<not> isSymbolicLink fs0 q"
              using new(2) e notunder notlink0 by fastforce
            ultimately show ?thesis by blast
          qed
        qed
      qed
    qed
  qed
qed

lemma copyWalk_forward:
  assumes "copyWalk (copyFilter ign) src dest entries rejected fs st = (Inr st', fs')"
    and "set entries \<subseteq> set fs0"
    and "fs = fs0 @ extra"
    and "\<forall>r \<in> set rejected. isUnderOrEqual r ign \<or>
           (isSymbolicLink fs0 r \<and> r \<in> set (symlinkAnalyzer st))"
  shows "set (symlinkAnalyzer st) \<subseteq> set (symlinkAnalyzer st') \<and>
         (\<forall>(q, node) \<in> set entries.
            isSymbolicLink fs0 q \<and> list_all plain_segment q \<and> \<not> isUnderOrEqual q ign \<longrightarrow>
            (\<exists>a \<in> set (symlinkAnalyzer st'). prefix a q \<and> isSymbolicLink fs0 a))"
  using assms
proof (induction entries arbitrary: rejected fs st extra)
  case Nil
  then show ?case by simp
next
  case (Cons e entries)
  obtain q node where e: "e = (q, node)" by (cases e)
  from Cons.prems(2) e have qin: "q \<in> fst ` set fs0" by force
  from Cons.prems(2) have sub: "set entries \<subseteq> set fs0" by simp
  have link_eq: "isSymbolicLink fs q = isSymbolicLink fs0 q"
    using qin Cons.prems(3) by (simp add: isSymbolicLink_append)
  let ?d = "dest @ drop (length src) q"
  let ?goal = "\<lambda>entries st. set (symlinkAnalyzer st) \<subseteq> set (symlinkAnalyzer st') \<and>
         (\<forall>(q, node) \<in> set entries.
            isSymbolicLink fs0 q \<and> list_all plain_segment q \<and> \<not> isUnderOrEqual q ign \<longrightarrow>
            (\<exists>a \<in> set (symlinkAnalyzer st'). prefix a q \<and> isSymbolicLink fs0 a))"
  show ?case
  proof (cases "list_ex (\<lambda>r. prefix r q) rejected")
    case True
    with Cons.prems(1) e
    have "copyWalk (copyFilter ign) src dest entries rejected fs st = (Inr st', fs')" by simp
    from Cons.IH [OF this sub Cons.prems(3) Cons.prems(4)]
    have ih: "?goal entries st" .
    from True obtain r where r: "r \<in> set rejected" "prefix r q"
      by (auto simp: list_ex_iff)
    have "\<exists>a \<in> set (symlinkAnalyzer st'). prefix a q \<and> isSymbolicLink fs0 a"
      if q: "list_all plain_segment q" "\<not> isUnderOrEqual q ign"
    proof -
      from r(2) q have "\<not> isUnderOrEqual r ign"
        using isUnderOrEqual_below by blast
      with Cons.prems(4) r(1) have "isSymbolicLink fs0 r \<and> r \<in> set (symlinkAnalyzer st)"
        by blast
      with ih r(2) show ?thesis by blast
    qed
    with ih e show ?thesis by auto
  next
    case notrej: False
    show ?thesis
    proof (cases "isUnderOrEqual q ign")
      case True
      then have "copyFilter ign fs q st = (False, st)" by (simp add: copyFilter_def)
      with Cons.prems(1) e notrej
      have walk: "copyWalk (copyFilter ign) src dest entries (q # rejected) fs st = (Inr st', fs')"
        by simp
      have "\<forall>r \<in> set (q # rejected). isUnderOrEqual r ign \<or>
           (isSymbolicLink fs0 r \<and> r \<in> set (symlinkAnalyzer st))"
        using Cons.prems(4) True by simp
      from Cons.IH [OF walk sub Cons.prems(3) this]
      have "?goal entries st" .
      with e True show ?thesis by auto
    next
      case notunder: False
      show ?thesis
      proof (cases "isSymbolicLink fs q")
        case True
        let ?st1 = "st\<lparr>symlinkAnalyzer := symlinkAnalyzer st @ [q]\<rparr>"
        from True notunder have "copyFilter ign fs q st = (False, ?st1)"
          by (simp add: copyFilter_def)
        with Cons.prems(1) e notrej
        have walk: "copyWalk (copyFilter ign) src dest entries (q # rejected) fs ?st1 = (Inr st', fs')"
          by simp
        have "\<forall>r \<in> set (q # rejected). isUnderOrEqual r ign \<or>
             (isSymbolicLink fs0 r \<and> r \<in> set (symlinkAnalyzer ?st1))"
          using Cons.prems(4) True link_eq by auto
        from Cons.IH [OF walk sub Cons.prems(3) this]
        have ih: "?goal entries ?st1" .
        then have "q \<in> set (symlinkAnalyzer st')" by auto
        with True link_eq have "\<exists>a \<in> set (symlinkAnalyzer st'). prefix a q \<and> isSymbolicLink fs0 a"
          by auto
        with ih e show ?thesis by auto
      next
        case notlink: False
        have accepted: "copyFilter ign fs q st = (True, st)"
          using notunder notlink by (simp add: copyFilter_def)
        have "\<exists>fs1 extra1. copyWalk (copyFilter ign) src dest entries rejected fs1 st = (Inr st', fs') \<and>
            fs1 = fs0 @ extra1"
        proof (cases "node = Folder")
          case True
          with Cons.prems(1) e notrej accepted
          have "copyWalk (copyFilter ign) src dest entries rejected (ensureFolder fs ?d) st =
              (Inr st', fs')"
            by simp
          moreover have "ensureFolder fs ?d =
              fs0 @ (extra @ (if fs_exists fs ?d then [] else [(?d, Folder)]))"
            using Cons.prems(3) by (simp add: ensureFolder_def)
          ultimately show ?thesis by blast
        next
          case notfolder: False
          have ne: "\<not> fs_exists fs ?d"
            using Cons.prems(1) e notrej accepted notfolder by (cases node) (auto split: if_splits)
          with Cons.prems(1) e notrej accepted notfolder
          have "copyWalk (copyFilter ign) src dest entries rejected (fs_write ?d node fs) st =
              (Inr st', fs')"
            by (cases node) auto
          moreover have "fs_write ?d node fs = fs0 @ (extra @ [(?d, node)])"
            using ne Cons.prems(3) by (simp add: fs_write_new)
          ultimately show ?thesis by blast
        qed
        then obtain fs1 extra1 where
          walk: "copyWalk (copyFilter ign) src dest entries rejected fs1 st = (Inr st', fs')"
          and fs1: "fs1 = fs0 @ extra1"
          by blast
        from Cons.IH [OF walk sub fs1 Cons.prems(4)]
        have "?goal entries st" .
        with e notlink link_eq show ?thesis by auto
      qed
    qed
  qed
qed

section \<open>Properties of the link creation\<close>

lemma deploySymlink_target_missing:
  assumes "remapPathForDeployFolder this (linkPath l) st = Inr lp"
    and "remapPathForDeployFolder this (targetPath l) st = Inr tp"
    and "\<not> fs_exists fs tp"
  shows "deploySymlink w this l st fs = (Inr False, fs)"
  using assms by (simp add: deploySymlink_def)

lemma deploySymlink_link_created:
  assumes "remapPathForDeployFolder this (linkPath l) st = Inr lp"
    and "remapPathForDeployFolder this (targetPath l) st = Inr tp"
    and "fs_exists fs tp"
    and "\<not> (platform w = ''win32'' \<and> kind l = fileLink)"
  shows "deploySymlink w this l st fs =
           (Inr True,
            fs_write lp
              (Link (if platform w = ''win32'' then Junction
                     else if kind l = folderLink then SymbolicLinkFolder else SymbolicLinkFile)
                 (RelativeTarget
                    (path_relative
                       (getRealPath w (ensureFolder fs (path_dirname lp)) (path_dirname lp)) tp)))
              (ensureFolder fs (path_dirname lp)))"
  using assms
  by (cases "kind l")
    (auto simp: deploySymlink_def Let_def createSymbolicLinkJunction_def
      createSymbolicLinkFolder_def createSymbolicLinkFile_def)

lemma deploySymlink_link_present:
  assumes "remapPathForDeployFolder this (linkPath l) st = Inr lp"
    and "remapPathForDeployFolder this (targetPath l) st = Inr tp"
    and "fs_exists fs tp"
    and "\<not> (platform w = ''win32'' \<and> kind l = fileLink)"
  shows "fst (deploySymlink w this l st fs) = Inr True \<and>
         fs_exists (snd (deploySymlink w this l st fs)) (path_dirname lp) \<and>
         (\<exists>prim t. map_of (snd (deploySymlink w this l st fs)) lp = Some (Link prim t))"
  by (simp add: deploySymlink_link_created [OF assms] map_of_fs_write fs_exists_fs_write
      fs_exists_ensureFolder)

lemma deploySymlink_hard_link_refused:
  assumes "remapPathForDeployFolder this (linkPath l) st = Inr lp"
    and "remapPathForDeployFolder this (targetPath l) st = Inr tp"
    and "fs_exists fs tp"
    and "platform w = ''win32''" and "kind l = fileLink"
  shows "deploySymlink w this l st fs =
           (Inl (InvalidHardLinkTarget
                   (RelativeTarget
                      (path_relative
                         (getRealPath w (ensureFolder fs (path_dirname lp)) (path_dirname lp)) tp))
                   lp),
            ensureFolder fs (path_dirname lp))"
  using assms
  by (simp add: deploySymlink_def Let_def createHardLink_def)

lemmas run_defs =
  deployScenario_def loadConfigFile_def deployScenarioPath_def path_join_def split_path.simps
  JsonFile_load_scenario_def resolveTargetRootFolder_def ensureFolder_def readFolder_def
  ensureEmptyFolder_def deployProjects_def subdeploymentsEnabled_def deploySubdeployment_def
  getProjectByName_def new_DeployManager_def scenario_file_def project_setting_def
  old_deploy_file_def Map_set_def sortSet_def path_string_def deployFolder_def
  remapPathForDeployFolder_def isUnderOrEqual_def path_relative_def copySync_def copyFilter_def
  isSymbolicLink_def fs_write_def

section \<open>Claims\<close>

text \<open>
  C1.  On Windows, for a file link whose remapped target exists, the code hands the hard
  link primitive the path of the target relative to the folder of the new link, the same
  path it hands to the other three primitives: here \<^verbatim>\<open>../b/lib.js\<close> and not the absolute
  \<^verbatim>\<open>/out/b/lib.js\<close>.  The comment above the call says that the relative path cannot
  be used for hard links, and the primitive refuses it.
\<close>

theorem C1_hard_link_target:
  "deploySymlink (example_world ''win32'') example_manager
      \<lparr>kind = fileLink, linkPath = [''repo'', ''a'', ''lib.js''],
       targetPath = [''repo'', ''b'', ''lib.js'']\<rparr>
      (empty_state [''out'']) [([''out'', ''b'', ''lib.js''], File OtherContent)] =
   (Inl (InvalidHardLinkTarget (RelativeTarget [''..'', ''b'', ''lib.js''])
           [''out'', ''a'', ''lib.js'']),
    [([''out'', ''b'', ''lib.js''], File OtherContent),
     ([''out'', ''a''], Folder)])"
  by (simp add: deploySymlink_def example_manager_def example_defs run_defs
      createHardLink_def)

text \<open>
  C2.  Project \<open>a\<close> has the dependency \<open>b\<close> and the peer dependency \<open>d\<close>, and \<open>d\<close> is not
  installed.  \<open>d\<close> is in the lenient set, and still the resolver does not go on: the
  exception of \<^verbatim>\<open>resolve.sync\<close> leaves \<^verbatim>\<open>_collectFoldersRecursive\<close>, where no
  \<^verbatim>\<open>try\<close> stands around the call and the test of the lenient set on line 144 is never
  reached.
\<close>

theorem C2_lenient_name_aborts:
  "''d'' \<in> set (snd (dependencyNames (scenario None None) manifest_a)) \<and>
   resolve_sync ((example_world ''linux'')\<lparr>resolve_sync := throwing_resolve\<rparr>) example_sources ''d''
       [''repo'', ''a''] = ResolveThrows ''MODULE_NOT_FOUND'' \<and>
   collectFoldersRecursive 5 ((example_world ''linux'')\<lparr>resolve_sync := throwing_resolve\<rparr>)
       (scenario None None) example_sources [''repo'', ''a'', ''package.json'']
       (empty_state [''out'']) =
     Some (Inl (ResolveThrew ''MODULE_NOT_FOUND''))"
  by (simp add: example_defs throwing_resolve_def eval_nat_numeral prefixes_snoc [symmetric])

text \<open>
  C3.  The check of \<open>additionalProjectsToInclude\<close> looks up the name of the project
  setting again and not the additional name.  A scenario whose project \<open>a\<close> includes the
  unknown project \<open>ghost\<close> loads without an error; the run then empties the deploy folder
  and fails only when the subdeployment looks for the project.
\<close>

theorem C3_unknown_additional_project:
  "loadConfigFile (example_world ''linux'') ghost_workspace new_DeployManager ''ghost'' =
     Inr (new_DeployManager
           \<lparr>deployScenarioJson := scenario (Some [project_setting ''a'' (Some [''ghost''])]) None,
            deployScenarioProjectJsonsByName := [(''a'', project_setting ''a'' (Some [''ghost'']))]\<rparr>) \<and>
   deployScenario 9 (example_world ''linux'') new_DeployManager ghost_workspace ''ghost'' True None =
     Some (Inl (ProjectNotDefined ''ghost''),
           example_sources @
           [scenario_file ''ghost'' (scenario (Some [project_setting ''a'' (Some [''ghost''])]) None),
            ([''repo'', ''common'', ''deploy''], Folder)])"
  by (simp add: ghost_workspace_def example_defs run_defs eval_nat_numeral
      prefixes_snoc [symmetric])

text \<open>
  C4.  With a bound above the number of entries of the filesystem the resolver returns,
  whatever the manifests refer to, and a larger bound gives the same result; a manifest
  whose folder is in \<open>foldersToCopy\<close> is returned from at once with the state unchanged;
  and no folder gets into \<open>foldersToCopy\<close> twice.
\<close>

theorem C4_resolver_terminates:
  "(length fs < n \<longrightarrow>
      (\<exists>r. collectFoldersRecursive n w json fs p st = Some r \<and>
           (\<forall>m. n \<le> m \<longrightarrow> collectFoldersRecursive m w json fs p st = Some r))) \<and>
   (path_dirname p \<in> set (foldersToCopy st) \<longrightarrow>
      collectFoldersRecursive (Suc n) w json fs p st = Some (Inr st)) \<and>
   (distinct (foldersToCopy st) \<and> collectFoldersRecursive n w json fs p st = Some (Inr st') \<longrightarrow>
      distinct (foldersToCopy st'))"
proof (intro conjI impI)
  assume n: "length fs < n"
  have "card (entryFolders fs - set (foldersToCopy st)) \<le> card (entryFolders fs)"
    by (intro card_mono) (simp_all add: finite_entryFolders)
  also have "\<dots> \<le> card (fst ` set fs)"
    unfolding entryFolders_def by (intro card_image_le) simp
  also have "\<dots> \<le> card (set fs)"
    by (intro card_image_le) simp
  also have "\<dots> \<le> length fs"
    by (rule card_length)
  finally have "card (entryFolders fs - set (foldersToCopy st)) < n"
    using n by simp
  with collect_terminates_aux(1) [of fs st n w json p]
  obtain r where r: "collectFoldersRecursive n w json fs p st = Some r"
    by blast
  then have "\<forall>m. n \<le> m \<longrightarrow> collectFoldersRecursive m w json fs p st = Some r"
    by (blast intro: collect_fuel_mono)
  with r show "\<exists>r. collectFoldersRecursive n w json fs p st = Some r \<and>
           (\<forall>m. n \<le> m \<longrightarrow> collectFoldersRecursive m w json fs p st = Some r)"
    by blast
next
  assume "path_dirname p \<in> set (foldersToCopy st)"
  then show "collectFoldersRecursive (Suc n) w json fs p st = Some (Inr st)"
    by simp
next
  assume "distinct (foldersToCopy st) \<and> collectFoldersRecursive n w json fs p st = Some (Inr st')"
  with collect_distinct_aux(1) [of st n w json fs p]
  show "distinct (foldersToCopy st')"
    by blast
qed

theorem C4_resolver_terminates_witness:
  "length example_sources < 5 \<and>
   collectFoldersRecursive 5 (example_world ''linux'') (scenario None None) example_sources
      [''repo'', ''a'', ''package.json''] (empty_state [''out'']) =
     Some (Inr \<lparr>targetSubdeploymentFolder = [''out''], symlinkAnalyzer = [],
                 foldersToCopy = [[''repo'', ''a''], [''repo'', ''b'']]\<rparr>) \<and>
   collectFoldersRecursive 9 (example_world ''linux'') (scenario None None) example_sources
      [''repo'', ''a'', ''package.json''] (empty_state [''out'']) =
     Some (Inr \<lparr>targetSubdeploymentFolder = [''out''], symlinkAnalyzer = [],
                 foldersToCopy = [[''repo'', ''a''], [''repo'', ''b'']]\<rparr>) \<and>
   collectFoldersRecursive 1 (example_world ''linux'') (scenario None None) example_sources
      [''repo'', ''b'', ''package.json'']
      \<lparr>targetSubdeploymentFolder = [''out''], symlinkAnalyzer = [],
        foldersToCopy = [[''repo'', ''a''], [''repo'', ''b'']]\<rparr> =
     Some (Inr \<lparr>targetSubdeploymentFolder = [''out''], symlinkAnalyzer = [],
                 foldersToCopy = [[''repo'', ''a''], [''repo'', ''b'']]\<rparr>) \<and>
   distinct [[''repo'', ''a''], [''repo'', ''b'']]"
proof -
  let ?w = "example_world ''linux''"
  let ?p = "[''repo'', ''a'', ''package.json'']"
  let ?st = "empty_state [''out'']"
  let ?st1 = "\<lparr>targetSubdeploymentFolder = [''out''], symlinkAnalyzer = [],
               foldersToCopy = [[''repo'', ''a''], [''repo'', ''b'']]\<rparr>"
  have run: "collectFoldersRecursive 5 ?w (scenario None None) example_sources ?p ?st = Some (Inr ?st1)"
    by (simp add: example_defs eval_nat_numeral prefixes_snoc [symmetric])
  have len: "length example_sources < 5"
    by (simp add: example_sources_def)
  have more: "collectFoldersRecursive 9 ?w (scenario None None) example_sources ?p ?st = Some (Inr ?st1)"
    using C4_resolver_terminates [of example_sources 5 ?w "scenario None None" ?p ?st ?st1] len run
    by auto
  have again: "collectFoldersRecursive 1 ?w (scenario None None) example_sources
      [''repo'', ''b'', ''package.json''] ?st1 = Some (Inr ?st1)"
    using C4_resolver_terminates [of example_sources 0 ?w "scenario None None"
        "[''repo'', ''b'', ''package.json'']" ?st1 ?st1]
    by (simp add: path_dirname_def)
  have dist: "distinct (foldersToCopy ?st1)"
    using C4_resolver_terminates [of example_sources 5 ?w "scenario None None" ?p ?st ?st1] run
    by (simp add: empty_state_def)
  from len run more again dist show ?thesis by simp
qed



text \<open>
  C6.  On Windows, for a file link whose remapped target exists, the call neither
  creates the link nor returns true: the folder of the new link is created, and then the
  hard link primitive throws, because the code gives it the relative path (the defect of
  C1).  The filesystem is left with the new folder and without the link.
\<close>

theorem C6_hard_link_not_created:
  "fs_exists [([''out'', ''b'', ''tool.js''], File OtherContent)] [''out'', ''b'', ''tool.js''] \<and>
   deploySymlink (example_world ''win32'') example_manager
      \<lparr>kind = fileLink, linkPath = [''repo'', ''a'', ''bin'', ''tool.js''],
       targetPath = [''repo'', ''b'', ''tool.js'']\<rparr>
      (empty_state [''out'']) [([''out'', ''b'', ''tool.js''], File OtherContent)] =
   (Inl (InvalidHardLinkTarget (RelativeTarget [''..'', ''..'', ''b'', ''tool.js''])
           [''out'', ''a'', ''bin'', ''tool.js'']),
    [([''out'', ''b'', ''tool.js''], File OtherContent),
     ([''out'', ''a'', ''bin''], Folder)])"
  by (simp add: deploySymlink_def example_manager_def example_defs run_defs
      createHardLink_def)

text \<open>
  C7.  A path under the source root is remapped to the target folder of the subdeployment
  followed by the path's position below the source root, and that position is the same
  relative path on both sides; a path that is not under the source root makes the
  remapping fail with the error that names the root and the path.
\<close>

theorem C7_remap_under_source_root:
  "(isUnderOrEqual p (sourceRootFolder this) \<longrightarrow>
      remapPathForDeployFolder this p st =
        Inr (path_normalize (targetSubdeploymentFolder st) @
             drop (length (path_normalize (sourceRootFolder this))) (path_normalize p)) \<and>
      (\<forall>q. remapPathForDeployFolder this p st = Inr q \<longrightarrow>
        path_relative (targetSubdeploymentFolder st) q = path_relative (sourceRootFolder this) p)) \<and>
   (\<not> isUnderOrEqual p (sourceRootFolder this) \<longrightarrow>
      remapPathForDeployFolder this p st = Inl (SourcePathNotUnder (sourceRootFolder this) p))"
proof -
  let ?src = "sourceRootFolder this"
  have rel: "path_relative tgt (path_normalize tgt @ zs) = zs"
    if "list_all plain_segment zs" for tgt zs
  proof -
    have "path_normalize (path_normalize tgt @ zs) = path_normalize tgt @ zs"
      using that foldl_normalize_step_plain [of zs "path_normalize tgt"]
      by (simp add: normalize_append normalize_idem)
    then show ?thesis
      by (simp add: path_relative_def strip_common_prefix)
  qed
  have plain: "list_all plain_segment (drop (length (path_normalize ?src)) (path_normalize p))"
    using normalize_plain [of p] by (auto simp: list_all_iff dest: in_set_dropD)
  have under: "remapPathForDeployFolder this p st =
      Inr (path_normalize (targetSubdeploymentFolder st) @
           drop (length (path_normalize ?src)) (path_normalize p))"
    if u: "isUnderOrEqual p ?src"
    using u by (simp add: remapPathForDeployFolder_def path_join_under [OF u])
  show ?thesis
    using under rel [OF plain, of "targetSubdeploymentFolder st"]
    by (auto simp: path_relative_under remapPathForDeployFolder_def)
qed

theorem C7_remap_under_source_root_witness:
  "remapPathForDeployFolder (new_DeployManager\<lparr>sourceRootFolder := [''repo'']\<rparr>)
      [''repo'', ''apps'', ''a'']
      \<lparr>targetSubdeploymentFolder = [''out''], symlinkAnalyzer = [], foldersToCopy = []\<rparr>
     = Inr [''out'', ''apps'', ''a''] \<and>
   remapPathForDeployFolder (new_DeployManager\<lparr>sourceRootFolder := [''repo'']\<rparr>)
      [''elsewhere'', ''a'']
      \<lparr>targetSubdeploymentFolder = [''out''], symlinkAnalyzer = [], foldersToCopy = []\<rparr>
     = Inl (SourcePathNotUnder [''repo''] [''elsewhere'', ''a''])"
  using C7_remap_under_source_root [of "[''repo'', ''apps'', ''a'']"
      "new_DeployManager\<lparr>sourceRootFolder := [''repo'']\<rparr>"
      "\<lparr>targetSubdeploymentFolder = [''out''], symlinkAnalyzer = [], foldersToCopy = []\<rparr>"]
    C7_remap_under_source_root [of "[''elsewhere'', ''a'']"
      "new_DeployManager\<lparr>sourceRootFolder := [''repo'']\<rparr>"
      "\<lparr>targetSubdeploymentFolder = [''out''], symlinkAnalyzer = [], foldersToCopy = []\<rparr>"]
  by (simp add: isUnderOrEqual_def path_normalize_def normalize_step_def new_DeployManager_def)

text \<open>
  C8, as stated, fails for a \<open>node_modules\<close> folder that is itself a symbolic link: the
  filter rejects it before it looks at what the entry is, and the symlink analyzer never
  hears of it.
\<close>

theorem C8_symlinked_node_modules_not_forwarded:
  "isSymbolicLink linked_store_workspace [''repo'', ''a'', ''node_modules''] \<and>
   copyFilter (path_join [''repo'', ''a''] [''node_modules'']) linked_store_workspace
      [''repo'', ''a'', ''node_modules''] (empty_state [''out'']) = (False, empty_state [''out'']) \<and>
   deployFolder example_manager [''repo'', ''a''] (empty_state [''out'']) linked_store_workspace =
     (Inr \<lparr>targetSubdeploymentFolder = [''out''],
            symlinkAnalyzer = [[''repo'', ''a'', ''docs'']],
            foldersToCopy = []\<rparr>,
      linked_store_workspace @
      [([''out'', ''a'', ''package.json''], File (ManifestContent manifest_a)),
       ([''out'', ''a'', ''index.js''], File OtherContent)])"
  by (simp add: linked_store_workspace_def example_manager_def example_defs run_defs)

text \<open>
  C8, amended.  The filter rejects every entry at or under the \<open>node_modules\<close> folder of
  the copied package and leaves the analyzer alone; it rejects every other entry that is
  a symbolic link and hands its path to the analyzer; it accepts the rest.  So a copy only
  adds entries, each the copy of an entry of the source folder that is neither at or under
  \<open>node_modules\<close> nor a symbolic link; and after a copy that did not fail, for every
  symbolic link of the source folder outside \<open>node_modules\<close> (its path normalised) the
  analyzer holds the link itself or a symbolic link above it.
\<close>

theorem C8_copy_filter:
  "(isUnderOrEqual q (path_join src [''node_modules'']) \<longrightarrow>
      copyFilter (path_join src [''node_modules'']) fs q st = (False, st)) \<and>
   (\<not> isUnderOrEqual q (path_join src [''node_modules'']) \<and> isSymbolicLink fs q \<longrightarrow>
      copyFilter (path_join src [''node_modules'']) fs q st =
        (False, st\<lparr>symlinkAnalyzer := symlinkAnalyzer st @ [q]\<rparr>)) \<and>
   (\<not> isUnderOrEqual q (path_join src [''node_modules'']) \<and> \<not> isSymbolicLink fs q \<longrightarrow>
      copyFilter (path_join src [''node_modules'']) fs q st = (True, st)) \<and>
   (remapPathForDeployFolder this src st = Inr dest \<and> deployFolder this src st fs = (r, fs') \<longrightarrow>
      (\<exists>new. fs' = fs @ new \<and>
         (\<forall>(d, node) \<in> set new. \<exists>e. (e, node) \<in> set fs \<and> prefix src e \<and>
             d = dest @ drop (length src) e \<and>
             \<not> isUnderOrEqual e (path_join src [''node_modules'']) \<and> \<not> isSymbolicLink fs e))) \<and>
   (deployFolder this src st fs = (Inr st', fs') \<longrightarrow>
      (\<forall>(e, node) \<in> set fs.
          prefix src e \<and> isSymbolicLink fs e \<and> list_all plain_segment e \<and>
          \<not> isUnderOrEqual e (path_join src [''node_modules'']) \<longrightarrow>
          (\<exists>a \<in> set (symlinkAnalyzer st'). prefix a e \<and> isSymbolicLink fs a)))"
proof -
  let ?ign = "path_join src [''node_modules'']"
  let ?entries = "sort_key (\<lambda>(q, n). length q) (filter (\<lambda>(q, n). prefix src q) fs)"
  have entries: "set ?entries = {e \<in> set fs. prefix src (fst e)}"
    by auto
  then have sub: "set ?entries \<subseteq> set fs" by blast
  have frame: "\<exists>new. fs' = fs @ new \<and>
         (\<forall>(d, node) \<in> set new. \<exists>e. (e, node) \<in> set fs \<and> prefix src e \<and>
             d = dest @ drop (length src) e \<and>
             \<not> isUnderOrEqual e ?ign \<and> \<not> isSymbolicLink fs e)"
    if "remapPathForDeployFolder this src st = Inr dest \<and> deployFolder this src st fs = (r, fs')"
  proof -
    from that have remap: "remapPathForDeployFolder this src st = Inr dest"
      and run: "deployFolder this src st fs = (r, fs')"
      by simp_all
    from run have "copyWalk (copyFilter ?ign) src dest ?entries [] fs st = (r, fs')"
      by (simp add: deployFolder_def copySync_def remap)
    from copyWalk_frame [OF this sub, of "[]"] obtain new where
      new: "fs' = fs @ new"
        "\<forall>(d, node) \<in> set new. \<exists>q. (q, node) \<in> set ?entries \<and>
               d = dest @ drop (length src) q \<and> \<not> isUnderOrEqual q ?ign \<and>
               \<not> isSymbolicLink fs q"
      by auto
    from new(2) have "\<forall>(d, node) \<in> set new. \<exists>e. (e, node) \<in> set fs \<and> prefix src e \<and>
             d = dest @ drop (length src) e \<and>
             \<not> isUnderOrEqual e ?ign \<and> \<not> isSymbolicLink fs e"
      unfolding entries by fastforce
    with new(1) show ?thesis by blast
  qed
  have forward: "\<forall>(e, node) \<in> set fs.
          prefix src e \<and> isSymbolicLink fs e \<and> list_all plain_segment e \<and>
          \<not> isUnderOrEqual e ?ign \<longrightarrow>
          (\<exists>a \<in> set (symlinkAnalyzer st'). prefix a e \<and> isSymbolicLink fs a)"
    if run: "deployFolder this src st fs = (Inr st', fs')"
  proof -
    from run obtain dest' where "remapPathForDeployFolder this src st = Inr dest'"
      by (cases "remapPathForDeployFolder this src st") (auto simp: deployFolder_def)
    with run have "copyWalk (copyFilter ?ign) src dest' ?entries [] fs st = (Inr st', fs')"
      by (simp add: deployFolder_def copySync_def)
    from copyWalk_forward [OF this sub, of "[]"]
    have "\<forall>(q, node) \<in> set ?entries.
            isSymbolicLink fs q \<and> list_all plain_segment q \<and> \<not> isUnderOrEqual q ?ign \<longrightarrow>
            (\<exists>a \<in> set (symlinkAnalyzer st'). prefix a q \<and> isSymbolicLink fs a)"
      by simp
    then show ?thesis unfolding entries by fastforce
  qed
  show ?thesis
    using frame forward by (simp add: copyFilter_def)
qed

theorem C8_copy_filter_witness:
  "copyFilter (path_join [''repo'', ''a''] [''node_modules'']) linked_store_workspace
      [''repo'', ''a'', ''node_modules'', ''b''] (empty_state [''out'']) =
     (False, empty_state [''out'']) \<and>
   copyFilter (path_join [''repo'', ''a''] [''node_modules'']) linked_store_workspace
      [''repo'', ''a'', ''docs''] (empty_state [''out'']) =
     (False, empty_state [''out'']\<lparr>symlinkAnalyzer := [[''repo'', ''a'', ''docs'']]\<rparr>) \<and>
   copyFilter (path_join [''repo'', ''a''] [''node_modules'']) linked_store_workspace
      [''repo'', ''a'', ''index.js''] (empty_state [''out'']) =
     (True, empty_state [''out'']) \<and>
   deployFolder example_manager [''repo'', ''a''] (empty_state [''out'']) linked_store_workspace =
     (Inr \<lparr>targetSubdeploymentFolder = [''out''],
            symlinkAnalyzer = [[''repo'', ''a'', ''docs'']],
            foldersToCopy = []\<rparr>,
      linked_store_workspace @
      [([''out'', ''a'', ''package.json''], File (ManifestContent manifest_a)),
       ([''out'', ''a'', ''index.js''], File OtherContent)])"
proof -
  let ?ws = linked_store_workspace
  let ?st = "empty_state [''out'']"
  let ?src = "[''repo'', ''a'']"
  have under: "copyFilter (path_join ?src [''node_modules'']) ?ws
      [''repo'', ''a'', ''node_modules'', ''b''] ?st = (False, ?st)"
    using C8_copy_filter [of "[''repo'', ''a'', ''node_modules'', ''b'']" ?src ?ws ?st]
    by (simp add: isUnderOrEqual_def path_join_def path_normalize_def normalize_step_def)
  have link: "copyFilter (path_join ?src [''node_modules'']) ?ws [''repo'', ''a'', ''docs''] ?st =
      (False, ?st\<lparr>symlinkAnalyzer := [[''repo'', ''a'', ''docs'']]\<rparr>)"
    using C8_copy_filter [of "[''repo'', ''a'', ''docs'']" ?src ?ws ?st]
    by (simp add: isUnderOrEqual_def path_join_def path_normalize_def normalize_step_def
        isSymbolicLink_def linked_store_workspace_def empty_state_def)
  have plain: "copyFilter (path_join ?src [''node_modules'']) ?ws [''repo'', ''a'', ''index.js''] ?st =
      (True, ?st)"
    using C8_copy_filter [of "[''repo'', ''a'', ''index.js'']" ?src ?ws ?st]
    by (simp add: isUnderOrEqual_def path_join_def path_normalize_def normalize_step_def
        isSymbolicLink_def linked_store_workspace_def)
  have run: "deployFolder example_manager ?src ?st ?ws =
     (Inr \<lparr>targetSubdeploymentFolder = [''out''],
            symlinkAnalyzer = [[''repo'', ''a'', ''docs'']],
            foldersToCopy = []\<rparr>,
      ?ws @
      [([''out'', ''a'', ''package.json''], File (ManifestContent manifest_a)),
       ([''out'', ''a'', ''index.js''], File OtherContent)])"
    by (simp add: linked_store_workspace_def example_manager_def example_defs run_defs)
  from under link plain run show ?thesis by simp
qed

text \<open>
  C9.  The target root folder of the run is resolved and is not empty.  Without the
  overwrite flag the run ends with an error and the filesystem is as it was; when the
  scenario has loaded, the error is that the target is not empty.  With the flag, and the
  scenario loaded, the run is the deployment of the projects on the filesystem in which
  everything below the target root is deleted: the target root is there and empty, and
  what is not under it is untouched.
\<close>

theorem C9_non_empty_target:
  assumes root: "resolveTargetRootFolder w fs targetFolderParameter = Inr root"
    and nonempty: "readFolder fs root \<noteq> []"
  shows "(\<exists>e. deployScenario n w this fs scenarioName False targetFolderParameter =
              Some (Inl e, fs)) \<and>
         (\<forall>this1. loadConfigFile w fs this scenarioName = Inr this1 \<longrightarrow>
            deployScenario n w this fs scenarioName False targetFolderParameter =
              Some (Inl TargetFolderNotEmpty, fs) \<and>
            deployScenario n w this fs scenarioName True targetFolderParameter =
              deployProjects n w
                (this1\<lparr>targetRootFolder := root,
                        sourceRootFolder := rushJsonFolder (rushConfiguration w)\<rparr>)
                (ensureEmptyFolder fs root)) \<and>
         readFolder (ensureEmptyFolder fs root) root = [] \<and>
         fs_exists (ensureEmptyFolder fs root) root \<and>
         (\<forall>q node. \<not> prefix root q \<longrightarrow>
            ((q, node) \<in> set (ensureEmptyFolder fs root) \<longleftrightarrow> (q, node) \<in> set fs))"
proof -
  have same: "ensureFolder fs root = fs"
    using nonempty by (simp add: ensureFolder_existing nonempty_exists)
  have fatal: "\<exists>e. deployScenario n w this fs scenarioName False targetFolderParameter =
      Some (Inl e, fs)"
    using root nonempty
    by (cases "loadConfigFile w fs this scenarioName") (simp_all add: deployScenario_def Let_def same)
  have loaded: "deployScenario n w this fs scenarioName False targetFolderParameter =
        Some (Inl TargetFolderNotEmpty, fs) \<and>
      deployScenario n w this fs scenarioName True targetFolderParameter =
        deployProjects n w
          (this1\<lparr>targetRootFolder := root,
                  sourceRootFolder := rushJsonFolder (rushConfiguration w)\<rparr>)
          (ensureEmptyFolder fs root)"
    if "loadConfigFile w fs this scenarioName = Inr this1" for this1
    using that root nonempty by (simp add: deployScenario_def Let_def same)
  show ?thesis
    using fatal loaded
    by (simp add: readFolder_ensureEmptyFolder fs_exists_ensureEmptyFolder
        ensureEmptyFolder_outside)
qed

theorem C9_non_empty_target_witness:
  "deployScenario 9 (example_world ''linux'') new_DeployManager
      (example_workspace (scenario (Some [project_setting ''a'' None]) None)) ''s'' False None =
     Some (Inl TargetFolderNotEmpty,
           example_workspace (scenario (Some [project_setting ''a'' None]) None)) \<and>
   deployScenario 9 (example_world ''linux'') new_DeployManager
      (example_workspace (scenario (Some [project_setting ''a'' None]) None)) ''s'' True None =
     Some (Inr (),
           example_sources @
           [scenario_file ''s'' (scenario (Some [project_setting ''a'' None]) None),
            ([''repo'', ''common'', ''deploy''], Folder),
            ([''repo'', ''common'', ''deploy'', ''a'', ''package.json''],
               File (ManifestContent manifest_a)),
            ([''repo'', ''common'', ''deploy'', ''a'', ''index.js''], File OtherContent),
            ([''repo'', ''common'', ''deploy'', ''b'', ''package.json''],
               File (ManifestContent manifest_b))])"
proof -
  let ?w = "example_world ''linux''"
  let ?json = "scenario (Some [project_setting ''a'' None]) None"
  let ?fs = "example_workspace ?json"
  let ?this1 = "new_DeployManager
       \<lparr>deployScenarioJson := ?json,
        deployScenarioProjectJsonsByName := [(''a'', project_setting ''a'' None)]\<rparr>"
  let ?root = "[''repo'', ''common'', ''deploy'']"
  have load: "loadConfigFile ?w ?fs new_DeployManager ''s'' = Inr ?this1"
    by (simp add: example_workspace_def example_defs run_defs)
  have root: "resolveTargetRootFolder ?w ?fs None = Inr ?root"
    by (simp add: example_workspace_def example_defs run_defs)
  have nonempty: "readFolder ?fs ?root \<noteq> []"
    by (simp add: example_workspace_def example_defs run_defs)
  have deploy: "deployProjects 9 ?w
        (?this1\<lparr>targetRootFolder := ?root,
                 sourceRootFolder := rushJsonFolder (rushConfiguration ?w)\<rparr>)
        (ensureEmptyFolder ?fs ?root) =
      Some (Inr (),
           example_sources @
           [scenario_file ''s'' ?json,
            ([''repo'', ''common'', ''deploy''], Folder),
            ([''repo'', ''common'', ''deploy'', ''a'', ''package.json''],
               File (ManifestContent manifest_a)),
            ([''repo'', ''common'', ''deploy'', ''a'', ''index.js''], File OtherContent),
            ([''repo'', ''common'', ''deploy'', ''b'', ''package.json''],
               File (ManifestContent manifest_b))])"
    by (simp add: example_workspace_def example_defs run_defs eval_nat_numeral
        prefixes_snoc [symmetric])
  from C9_non_empty_target [OF root nonempty, where n = 9 and this = new_DeployManager
      and scenarioName = "''s''"] load deploy
  show ?thesis by simp
qed

text \<open>
  C10.  The scenario has loaded, the target root folder is resolved, and the target is
  empty or may be overwritten.  With subdeployments enabled and no subdeployment project
  the run succeeds and deploys nothing, whatever \<open>projectSettings\<close> holds: the target root
  exists and is empty, and nothing outside it has changed.  With subdeployments not
  enabled, an absent or empty \<open>projectSettings\<close> ends the run with the error that no
  projects were specified.
\<close>

theorem C10_subdeployments_without_projects:
  assumes load: "loadConfigFile w fs this scenarioName = Inr this1"
    and root: "resolveTargetRootFolder w fs targetFolderParameter = Inr root"
    and prepared: "readFolder (ensureFolder fs root) root = [] \<or> overwriteExisting"
  shows "(subdeploymentsEnabled (deployScenarioJson this1) \<and>
          noSubdeploymentProjects (deployScenarioJson this1) \<longrightarrow>
            (\<exists>fs'. deployScenario n w this fs scenarioName overwriteExisting targetFolderParameter =
                     Some (Inr (), fs') \<and>
                   readFolder fs' root = [] \<and> fs_exists fs' root \<and>
                   (\<forall>q node. \<not> prefix root q \<longrightarrow> ((q, node) \<in> set fs' \<longleftrightarrow> (q, node) \<in> set fs)))) \<and>
         (\<not> subdeploymentsEnabled (deployScenarioJson this1) \<and>
          (projectSettings (deployScenarioJson this1) = None \<or>
           projectSettings (deployScenarioJson this1) = Some []) \<longrightarrow>
            (\<exists>fs'. deployScenario n w this fs scenarioName overwriteExisting targetFolderParameter =
                     Some (Inl NoProjectsSpecified, fs')))"
proof (intro conjI impI)
  let ?this2 = "this1\<lparr>targetRootFolder := root,
                       sourceRootFolder := rushJsonFolder (rushConfiguration w)\<rparr>"
  let ?fs1 = "ensureFolder fs root"
  let ?fs2 = "if readFolder ?fs1 root \<noteq> [] then ensureEmptyFolder ?fs1 root else ?fs1"
  have run: "deployScenario n w this fs scenarioName overwriteExisting targetFolderParameter =
      deployProjects n w ?this2 ?fs2"
    using load root prepared by (auto simp: deployScenario_def Let_def)
  {
    assume "subdeploymentsEnabled (deployScenarioJson this1) \<and>
            noSubdeploymentProjects (deployScenarioJson this1)"
    then have "deployProjects n w ?this2 ?fs2 = Some (Inr (), ?fs2)"
      by (auto simp: deployProjects_def noSubdeploymentProjects_def subdeploymentsEnabled_def
          split: option.splits)
    moreover have "readFolder ?fs2 root = []"
      by (simp add: readFolder_ensureEmptyFolder)
    moreover have "fs_exists ?fs2 root"
      by (simp add: fs_exists_ensureEmptyFolder fs_exists_ensureFolder)
    moreover have "\<forall>q node. \<not> prefix root q \<longrightarrow> ((q, node) \<in> set ?fs2 \<longleftrightarrow> (q, node) \<in> set fs)"
      by (simp add: ensureEmptyFolder_outside ensureFolder_outside)
    ultimately show "\<exists>fs'. deployScenario n w this fs scenarioName overwriteExisting
          targetFolderParameter = Some (Inr (), fs') \<and>
        readFolder fs' root = [] \<and> fs_exists fs' root \<and>
        (\<forall>q node. \<not> prefix root q \<longrightarrow> ((q, node) \<in> set fs' \<longleftrightarrow> (q, node) \<in> set fs))"
      using run by metis
  }
  {
    assume "\<not> subdeploymentsEnabled (deployScenarioJson this1) \<and>
          (projectSettings (deployScenarioJson this1) = None \<or>
           projectSettings (deployScenarioJson this1) = Some [])"
    then have "deployProjects n w ?this2 ?fs2 = Some (Inl NoProjectsSpecified, ?fs2)"
      by (auto simp: deployProjects_def)
    with run show "\<exists>fs'. deployScenario n w this fs scenarioName overwriteExisting
          targetFolderParameter = Some (Inl NoProjectsSpecified, fs')"
      by simp
  }
qed

theorem C10_subdeployments_without_projects_witness:
  "deployScenario 9 (example_world ''linux'') new_DeployManager
      (example_workspace
         (scenario None (Some \<lparr>enabled = Some True, subdeploymentProjects = None\<rparr>)))
      ''s'' True None =
     Some (Inr (),
           example_sources @
           [scenario_file ''s''
              (scenario None (Some \<lparr>enabled = Some True, subdeploymentProjects = None\<rparr>)),
            ([''repo'', ''common'', ''deploy''], Folder)]) \<and>
   (\<exists>fs'. deployScenario 9 (example_world ''linux'') new_DeployManager
      (example_workspace
         (scenario None (Some \<lparr>enabled = Some False, subdeploymentProjects = None\<rparr>)))
      ''s'' True None = Some (Inl NoProjectsSpecified, fs'))"
proof -
  let ?w = "example_world ''linux''"
  let ?on = "scenario None (Some \<lparr>enabled = Some True, subdeploymentProjects = None\<rparr>)"
  let ?off = "scenario None (Some \<lparr>enabled = Some False, subdeploymentProjects = None\<rparr>)"
  let ?root = "[''repo'', ''common'', ''deploy'']"
  have load_on: "loadConfigFile ?w (example_workspace ?on) new_DeployManager ''s'' =
      Inr (new_DeployManager\<lparr>deployScenarioJson := ?on, deployScenarioProjectJsonsByName := []\<rparr>)"
    by (simp add: example_workspace_def example_defs run_defs)
  have load_off: "loadConfigFile ?w (example_workspace ?off) new_DeployManager ''s'' =
      Inr (new_DeployManager\<lparr>deployScenarioJson := ?off, deployScenarioProjectJsonsByName := []\<rparr>)"
    by (simp add: example_workspace_def example_defs run_defs)
  have root: "resolveTargetRootFolder ?w (example_workspace json) None = Inr ?root" for json
    by (simp add: example_workspace_def example_defs run_defs)
  have on: "deployScenario 9 ?w new_DeployManager (example_workspace ?on) ''s'' True None =
     Some (Inr (), example_sources @ [scenario_file ''s'' ?on, (?root, Folder)])"
    by (simp add: example_workspace_def example_defs run_defs)
  have off: "\<exists>fs'. deployScenario 9 ?w new_DeployManager (example_workspace ?off) ''s'' True None =
      Some (Inl NoProjectsSpecified, fs')"
    using C10_subdeployments_without_projects [OF load_off root, of True 9]
    by (simp add: subdeploymentsEnabled_def scenario_def)
  have "\<exists>fs'. deployScenario 9 ?w new_DeployManager (example_workspace ?on) ''s'' True None =
      Some (Inr (), fs') \<and> readFolder fs' ?root = []"
    using C10_subdeployments_without_projects [OF load_on root, of True 9]
    by (auto simp: subdeploymentsEnabled_def noSubdeploymentProjects_def scenario_def)
  with on off show ?thesis by simp
qed

end
